theory Spec2Isabelle
  imports Complex_Main "HOL-Library.Word" "HOL-Library.Multiset"
begin

unbundle bit_operations_syntax

section \<open>Data model\<close>

text \<open>
  A JavaScript string is a sequence of UTF-16 code units; \<open>length\<close> counts code units,
  as \<open>String.prototype.length\<close> does. The scores that the retrieval pipeline ranks,
  filters and averages are modelled as reals: arithmetic is exact there, and rounding,
  NaN and the infinities are outside that part of the model. \<open>cosineSimilarity\<close> itself
  is also modelled on IEEE doubles (\<open>cosineSimilarity64\<close>), where its own properties are
  settled.
\<close>

type_synonym jschar = "16 word"
type_synonym jsstring = "jschar list"

text \<open>\<open>interface Vector\<close> and its \<open>metadata\<close> (VectorService).\<close>

record Metadata =
  segmentId :: jsstring
  meetingId :: jsstring
  speaker :: jsstring
  timestamp :: real
  text' :: jsstring
  chunkIndex :: "nat option"

record Vector =
  embedding :: "real list"
  metadata :: Metadata

text \<open>\<open>interface SimilarityResult\<close>.\<close>

record SimilarityResult =
  vector :: Vector
  similarity :: real

text \<open>
  A transcript segment as \<open>addMeetingSegments\<close> receives it: \<open>{ idx, t, speaker, text }\<close>,
  each field under the name of the segment.
\<close>

record Segment =
  segmentIdx :: int
  segmentT :: real
  segmentSpeaker :: jsstring
  segmentText :: jsstring

section \<open>Cosine similarity\<close>

text \<open>
  \<open>cosineSimilarity\<close> in exact arithmetic, as the retrieval pipeline ranks by it. The
  loop runs over the indices of \<open>a\<close>, and is entered only when both arrays have the same
  length. The accumulator is \<open>(dotProduct, normA, normB)\<close>.
\<close>

fun cosineLoop :: "real list \<Rightarrow> real list \<Rightarrow> real \<times> real \<times> real \<Rightarrow> real \<times> real \<times> real" where
  "cosineLoop (x # xs) (y # ys) (dotProduct, normA, normB) =
     cosineLoop xs ys (dotProduct + x * y, normA + x * x, normB + y * y)"
| "cosineLoop _ _ acc = acc"

definition cosineSimilarity :: "real list \<Rightarrow> real list \<Rightarrow> real" where
  "cosineSimilarity a b =
     (if length a \<noteq> length b then 0
      else (case cosineLoop a b (0, 0, 0) of
              (dotProduct, normA, normB) \<Rightarrow>
                (let denominator = sqrt normA * sqrt normB
                 in if denominator = 0 then 0 else dotProduct / denominator)))"

text \<open>The Euclidean norm of a vector, as the specification speaks of it.\<close>

definition vecNorm :: "real list \<Rightarrow> real" where
  "vecNorm v = sqrt (\<Sum>x\<leftarrow>v. x * x)"


section \<open>IEEE doubles\<close>

text \<open>
  \<open>cosineSimilarity\<close> squares and multiplies what it is given, so its results depend on
  the range of a JavaScript number, an IEEE-754 double: squares underflow to 0 and
  overflow to Infinity, and \<open>0 * Infinity\<close> and \<open>Infinity / Infinity\<close> are NaN. The
  function is therefore modelled once more on doubles. A finite double is the real
  number it denotes (\<open>Finite 0\<close> is \<open>+0\<close>); every arithmetic operation rounds its exact
  result to the nearest double, ties to even, as IEEE-754 prescribes for \<open>+ * /\<close> and as
  engines compute \<open>Math.sqrt\<close>. Every double is a value of this type, so what holds of
  all values of the type holds of all doubles.
\<close>

datatype double = Finite real | NegZero | PosInf | NegInf | NaN

definition pow2 :: "int \<Rightarrow> real" where
  "pow2 e = 2 powr real_of_int e"

text \<open>
  The finite doubles: \<open>m * 2^e\<close> with a significand below \<open>2^53\<close> and an exponent from
  \<open>-1074\<close> to \<open>971\<close>.
\<close>

definition representable :: "real \<Rightarrow> bool" where
  "representable x \<longleftrightarrow>
     (\<exists>m e. \<bar>m\<bar> < 2 ^ 53 \<and> - 1074 \<le> e \<and> e \<le> 971 \<and> x = of_int m * pow2 e)"

definition valof :: "double \<Rightarrow> real" where
  "valof d = (case d of Finite x \<Rightarrow> x | _ \<Rightarrow> 0)"

text \<open>The sign bit.\<close>

definition isNeg :: "double \<Rightarrow> bool" where
  "isNeg d = (case d of Finite x \<Rightarrow> x < 0 | NegZero \<Rightarrow> True | NegInf \<Rightarrow> True | _ \<Rightarrow> False)"

definition isInf :: "double \<Rightarrow> bool" where
  "isInf d \<longleftrightarrow> d = PosInf \<or> d = NegInf"

text \<open>The test \<open>d === 0\<close>: true of both zeros, false of NaN.\<close>

definition isZero :: "double \<Rightarrow> bool" where
  "isZero d \<longleftrightarrow> d = Finite 0 \<or> d = NegZero"

definition isFinite :: "double \<Rightarrow> bool" where
  "isFinite d = (case d of Finite x \<Rightarrow> True | NegZero \<Rightarrow> True | _ \<Rightarrow> False)"

text \<open>
  Rounding a magnitude to the nearest double: the spacing of the doubles around \<open>m\<close> is
  \<open>2^-1074\<close> below \<open>2^-1022\<close> (the subnormal range) and \<open>2^(e-52)\<close> for \<open>m\<close> in
  \<open>[2^e, 2^(e+1))\<close>; \<open>m\<close> goes to the nearest multiple of it, a tie to the even one.
\<close>

definition quantum :: "real \<Rightarrow> real" where
  "quantum m = (if m < pow2 (- 1022) then pow2 (- 1074) else pow2 (\<lfloor>log 2 m\<rfloor> - 52))"

definition roundEven :: "real \<Rightarrow> int" where
  "roundEven y =
     (let f = \<lfloor>y\<rfloor>
      in if y - of_int f < 1 / 2 then f
         else if y - of_int f > 1 / 2 then f + 1
         else if even f then f else f + 1)"

definition rndMag :: "real \<Rightarrow> real" where
  "rndMag m = of_int (roundEven (m / quantum m)) * quantum m"

text \<open>The unit roundoff of doubles, \<open>2^-53\<close>.\<close>

definition unitRoundoff :: real where
  "unitRoundoff = 1 / 2 ^ 53"

definition signedInfinity :: "bool \<Rightarrow> double" where
  "signedInfinity negative = (if negative then NegInf else PosInf)"

definition signedZero :: "bool \<Rightarrow> double" where
  "signedZero negative = (if negative then NegZero else Finite 0)"

text \<open>
  The double for an exact result of sign \<open>negative\<close> and magnitude \<open>m\<close>: a rounded
  magnitude of \<open>2^1024\<close> or more overflows to an infinity, one of 0 is a signed zero.
\<close>

definition mk :: "bool \<Rightarrow> real \<Rightarrow> double" where
  "mk negative m =
     (let r = rndMag m
      in if r \<ge> pow2 1024 then signedInfinity negative
         else if r = 0 then signedZero negative
         else Finite (if negative then - r else r))"

text \<open>The operators \<open>*\<close>, \<open>/\<close>, \<open>+\<close> and \<open>Math.sqrt\<close> on doubles.\<close>

definition fmul :: "double \<Rightarrow> double \<Rightarrow> double" where
  "fmul a b =
     (if a = NaN \<or> b = NaN then NaN
      else if isInf a \<or> isInf b
        then (if isZero a \<or> isZero b then NaN else signedInfinity (isNeg a \<noteq> isNeg b))
      else mk (isNeg a \<noteq> isNeg b) (\<bar>valof a\<bar> * \<bar>valof b\<bar>))"

definition fdiv :: "double \<Rightarrow> double \<Rightarrow> double" where
  "fdiv a b =
     (if a = NaN \<or> b = NaN then NaN
      else if isInf a then (if isInf b then NaN else signedInfinity (isNeg a \<noteq> isNeg b))
      else if isInf b then signedZero (isNeg a \<noteq> isNeg b)
      else if isZero b then (if isZero a then NaN else signedInfinity (isNeg a \<noteq> isNeg b))
      else mk (isNeg a \<noteq> isNeg b) (\<bar>valof a\<bar> / \<bar>valof b\<bar>))"

definition fsqrt :: "double \<Rightarrow> double" where
  "fsqrt a =
     (case a of
        NaN \<Rightarrow> NaN
      | NegInf \<Rightarrow> NaN
      | PosInf \<Rightarrow> PosInf
      | NegZero \<Rightarrow> NegZero
      | Finite x \<Rightarrow> if x < 0 then NaN else mk False (sqrt x))"

definition fadd :: "double \<Rightarrow> double \<Rightarrow> double" where
  "fadd a b =
     (if a = NaN \<or> b = NaN then NaN
      else if isInf a then (if isInf b \<and> a \<noteq> b then NaN else a)
      else if isInf b then b
      else (let r = valof a + valof b
            in if r = 0 then signedZero (isNeg a \<and> isNeg b) else mk (r < 0) \<bar>r\<bar>))"

subsection \<open>\<open>cosineSimilarity\<close> on doubles\<close>

text \<open>
  The same loop and the same function as above, statement by statement, with the
  operations of doubles: \<open>dotProduct\<close>, \<open>normA\<close> and \<open>normB\<close> start at \<open>+0\<close>.
\<close>

fun cosineLoop64 ::
  "double list \<Rightarrow> double list \<Rightarrow> double \<times> double \<times> double \<Rightarrow> double \<times> double \<times> double" where
  "cosineLoop64 (x # xs) (y # ys) (dotProduct, normA, normB) =
     cosineLoop64 xs ys
       (fadd dotProduct (fmul x y), fadd normA (fmul x x), fadd normB (fmul y y))"
| "cosineLoop64 _ _ acc = acc"

definition cosineSimilarity64 :: "double list \<Rightarrow> double list \<Rightarrow> double" where
  "cosineSimilarity64 a b =
     (if length a \<noteq> length b then Finite 0
      else (case cosineLoop64 a b (Finite 0, Finite 0, Finite 0) of
              (dotProduct, normA, normB) \<Rightarrow>
                (let denominator = fmul (fsqrt normA) (fsqrt normB)
                 in if isZero denominator then Finite 0 else fdiv dotProduct denominator)))"

text \<open>
  The sum of squares that the loop computes for one of its arguments (\<open>normA\<close> for the
  first, \<open>normB\<close> for the second): the square of the norm as the code has it.
\<close>

definition sumSquares64 :: "double list \<Rightarrow> double" where
  "sumSquares64 v = foldl (\<lambda>norm x. fadd norm (fmul x x)) (Finite 0) v"

text \<open>The values a sum of squares can take: not negative, below \<open>2^1024\<close>, Infinity or NaN.\<close>

definition squareSum :: "double \<Rightarrow> bool" where
  "squareSum d =
     (case d of Finite x \<Rightarrow> 0 \<le> x \<and> x < pow2 1024 | PosInf \<Rightarrow> True | NaN \<Rightarrow> True | _ \<Rightarrow> False)"

section \<open>JavaScript strings\<close>

text \<open>
  White space as \<open>String.prototype.trim\<close> and the regular expression class \<open>\s\<close>
  understand it: the WhiteSpace and LineTerminator code points of ECMAScript.
\<close>

definition isWhiteSpace :: "jschar \<Rightarrow> bool" where
  "isWhiteSpace c \<longleftrightarrow>
     (0x9 \<le> c \<and> c \<le> 0xD) \<or> c = 0x20 \<or> c = 0xA0 \<or> c = 0x1680
     \<or> (0x2000 \<le> c \<and> c \<le> 0x200A) \<or> c = 0x2028 \<or> c = 0x2029 \<or> c = 0x202F
     \<or> c = 0x205F \<or> c = 0x3000 \<or> c = 0xFEFF"

text \<open>The class \<open>\w\<close> (no unicode or ignore-case flag): \<open>[A-Za-z0-9_]\<close>.\<close>

definition isWordChar :: "jschar \<Rightarrow> bool" where
  "isWordChar c \<longleftrightarrow>
     (0x41 \<le> c \<and> c \<le> 0x5A) \<or> (0x61 \<le> c \<and> c \<le> 0x7A) \<or> (0x30 \<le> c \<and> c \<le> 0x39) \<or> c = 0x5F"

text \<open>The range U+4E00..U+9FA5 of the CJK unified ideographs.\<close>

definition isCJK :: "jschar \<Rightarrow> bool" where
  "isCJK c \<longleftrightarrow> 0x4E00 \<le> c \<and> c \<le> 0x9FA5"

definition trim :: "jsstring \<Rightarrow> jsstring" where
  "trim s = rev (dropWhile isWhiteSpace (rev (dropWhile isWhiteSpace s)))"

text \<open>
  \<open>s.split(re)\<close> for a regular expression that matches exactly one code unit of a class:
  the pieces between the matches, empty pieces included; a string without a match
  (the empty string too) is its own single piece.
\<close>

fun splitOn :: "(jschar \<Rightarrow> bool) \<Rightarrow> jsstring \<Rightarrow> jsstring list" where
  "splitOn p [] = [[]]"
| "splitOn p (c # cs) =
     (if p c then [] # splitOn p cs
      else (case splitOn p cs of
              [] \<Rightarrow> [[c]]
            | piece # pieces \<Rightarrow> (c # piece) # pieces))"

text \<open>
  \<open>s.match(re)\<close> for a global regular expression \<open>[class]+\<close>: the maximal runs of code
  units of the class, left to right (\<open>null\<close>, which the source replaces by \<open>[]\<close>, when
  there is none).
\<close>

function matchRuns :: "(jschar \<Rightarrow> bool) \<Rightarrow> jsstring \<Rightarrow> jsstring list" where
  "matchRuns p [] = []"
| "matchRuns p (c # cs) =
     (if p c then (c # takeWhile p cs) # matchRuns p (dropWhile p cs)
      else matchRuns p cs)"
  by pat_completeness auto
termination
  by (relation "measure (\<lambda>(p, s). length s)")
    (auto simp: length_dropWhile_le less_Suc_eq_le)

text \<open>\<open>s.replace(/\s+/g, ' ')\<close>: every maximal run of white space becomes one space.\<close>

function collapseWhitespace :: "jsstring \<Rightarrow> jsstring" where
  "collapseWhitespace [] = []"
| "collapseWhitespace (c # cs) =
     (if isWhiteSpace c then 0x20 # collapseWhitespace (dropWhile isWhiteSpace cs)
      else c # collapseWhitespace cs)"
  by pat_completeness auto
termination
  by (relation "measure length") (auto simp: length_dropWhile_le less_Suc_eq_le)

text \<open>
  \<open>s.toLowerCase()\<close> on the text the fallback embedder receives: \<open>cleanText\<close> leaves word
  characters, white space and the ideographs U+4E00..U+9FA5, of which only \<open>A..Z\<close> have a
  lower-case mapping.
\<close>

definition toLowerCase :: "jsstring \<Rightarrow> jsstring" where
  "toLowerCase s = map (\<lambda>c. if 0x41 \<le> c \<and> c \<le> 0x5A then c + 0x20 else c) s"

text \<open>\<open>s.includes(p)\<close>: \<open>p\<close> occurs in \<open>s\<close> as a contiguous run.\<close>

fun startsWith :: "jsstring \<Rightarrow> jsstring \<Rightarrow> bool" where
  "startsWith s [] = True"
| "startsWith [] (c # p) = False"
| "startsWith (d # s) (c # p) = (d = c \<and> startsWith s p)"

fun jsIncludes :: "jsstring \<Rightarrow> jsstring \<Rightarrow> bool" where
  "jsIncludes [] p = (p = [])"
| "jsIncludes (c # cs) p = (startsWith (c # cs) p \<or> jsIncludes cs p)"

text \<open>
  The decimal digits of an integer, as \<open>Number.prototype.toString\<close> and template
  literals print an integral number (below \<open>10^21\<close> in absolute value).
\<close>

function showNat :: "nat \<Rightarrow> jsstring" where
  "showNat n = (if n < 10 then [0x30 + of_nat n] else showNat (n div 10) @ [0x30 + of_nat (n mod 10)])"
  by pat_completeness auto
termination
  by (relation "measure id") auto

definition showInt :: "int \<Rightarrow> jsstring" where
  "showInt i = (if i < 0 then 0x2D # showNat (nat (- i)) else showNat (nat i))"

section \<open>JavaScript arrays\<close>

text \<open>
  \<open>Array.prototype.sort\<close> with a comparator is stable; for a comparator that orders by a
  key, every stable sort returns the same array. It is modelled as insertion sort: each
  element, in turn, goes behind the elements it does not precede.
\<close>

fun insertSorted :: "('a \<Rightarrow> 'a \<Rightarrow> real) \<Rightarrow> 'a \<Rightarrow> 'a list \<Rightarrow> 'a list" where
  "insertSorted cmp x [] = [x]"
| "insertSorted cmp x (y # ys) =
     (if cmp x y < 0 then x # y # ys else y # insertSorted cmp x ys)"

definition jsSort :: "('a \<Rightarrow> 'a \<Rightarrow> real) \<Rightarrow> 'a list \<Rightarrow> 'a list" where
  "jsSort cmp xs = foldl (\<lambda>sorted x. insertSorted cmp x sorted) [] xs"

text \<open>\<open>xs.slice(0, end)\<close> for an integer \<open>end\<close>: a negative \<open>end\<close> counts from the back.\<close>

definition slice0 :: "'a list \<Rightarrow> int \<Rightarrow> 'a list" where
  "slice0 xs end' = (if end' < 0 then take (nat (int (length xs) + end')) xs else take (nat end') xs)"

section \<open>VectorService\<close>

text \<open>
  The state of a \<open>VectorService\<close>: the stored vectors and the API key (\<open>apiUrl\<close> and
  \<open>model\<close> are constants of the class).
\<close>

record VectorService =
  vectors :: "Vector list"
  apiKey :: jsstring

text \<open>
  What \<open>fetch\<close> and the decoding of its response give: the promise is rejected, or there
  is a response with its \<open>ok\<close> flag, its status and its decoded payload
  (\<open>None\<close> when \<open>response.json()\<close> or the path into the JSON throws).
\<close>

datatype 'a fetched = Rejected | Response bool nat "'a option"

text \<open>The embeddings endpoint, as a function of the API key and the input text.\<close>

type_synonym embeddingApi = "jsstring \<Rightarrow> jsstring \<Rightarrow> real list fetched"

datatype error =
    ApiKeyNotConfigured
  | EmbeddingApiFailed nat
  | LLMApiFailed nat
  | FetchFailed
  | MalformedResponse

subsection \<open>\<open>cleanText\<close>\<close>

definition cleanText :: "jsstring \<Rightarrow> jsstring" where
  "cleanText s =
     take 8000
       (trim (filter (\<lambda>c. isWordChar c \<or> isWhiteSpace c \<or> isCJK c) (collapseWhitespace s)))"

subsection \<open>\<open>chunkText\<close>\<close>

text \<open>The sentence terminators of the split pattern: U+3002, U+FF01, U+FF1F and \<open>. ! ?\<close>.\<close>

definition isSentenceEnd :: "jschar \<Rightarrow> bool" where
  "isSentenceEnd c \<longleftrightarrow> c = 0x3002 \<or> c = 0xFF01 \<or> c = 0xFF1F \<or> c = 0x2E \<or> c = 0x21 \<or> c = 0x3F"

text \<open>The \<open>for\<close> loop of \<open>chunkText\<close>, on the state \<open>(chunks, currentChunk)\<close>.\<close>

fun chunkLoop :: "real \<Rightarrow> jsstring list \<Rightarrow> jsstring list \<times> jsstring \<Rightarrow> jsstring list \<times> jsstring" where
  "chunkLoop maxLength [] (chunks, currentChunk) = (chunks, currentChunk)"
| "chunkLoop maxLength (sentence # sentences) (chunks, currentChunk) =
     (if real (length (currentChunk @ sentence)) > maxLength \<and> currentChunk \<noteq> []
      then chunkLoop maxLength sentences (chunks @ [trim currentChunk], sentence)
      else chunkLoop maxLength sentences
             (chunks, currentChunk @ (if currentChunk \<noteq> [] then [0x3002] else []) @ sentence))"

definition chunkText :: "jsstring \<Rightarrow> real \<Rightarrow> jsstring list" where
  "chunkText s maxLength =
     (let sentences = filter (\<lambda>s. trim s \<noteq> []) (splitOn isSentenceEnd s)
      in (case chunkLoop maxLength sentences ([], []) of
            (chunks, currentChunk) \<Rightarrow>
              (let chunks' = (if trim currentChunk \<noteq> [] then chunks @ [trim currentChunk] else chunks)
               in if length chunks' > 0 then chunks' else [s])))"

subsection \<open>The fallback embedding\<close>

text \<open>
  \<open>simpleHash\<close>: \<open>hash << 5\<close> and \<open>hash & hash\<close> work on 32-bit integers, so \<open>hash\<close> is a
  32-bit word throughout and the result is the absolute value of its signed reading
  (\<open>Math.abs\<close> of \<open>-2^31\<close> is \<open>2^31\<close>, a number).
\<close>

definition hashStep :: "32 word \<Rightarrow> jschar \<Rightarrow> 32 word" where
  "hashStep hash char = (push_bit 5 hash - hash) + ucast char"

definition simpleHash :: "jsstring \<Rightarrow> int" where
  "simpleHash str = \<bar>sint (foldl hashStep 0 str)\<bar>"

text \<open>
  \<open>wordFreq\<close> is a \<open>Map\<close>: an association list in insertion order, a key that is set
  again keeping its place.
\<close>

fun countWord :: "(jsstring \<times> nat) list \<Rightarrow> jsstring \<Rightarrow> (jsstring \<times> nat) list" where
  "countWord [] word = [(word, 0 + 1)]"
| "countWord ((w, n) # wordFreq) word =
     (if w = word then (w, n + 1) # wordFreq else (w, n) # countWord wordFreq word)"

definition isTokenChar :: "jschar \<Rightarrow> bool" where
  "isTokenChar c \<longleftrightarrow> isWordChar c \<or> isCJK c"

definition fallbackWords :: "jsstring \<Rightarrow> jsstring list" where
  "fallbackWords s = matchRuns isTokenChar (toLowerCase s)"

text \<open>The body of the \<open>forEach\<close> over the entries of \<open>wordFreq\<close>.\<close>

definition scatterWord :: "real list \<Rightarrow> jsstring \<times> nat \<Rightarrow> real list" where
  "scatterWord emb entry =
     (case entry of (word, freq) \<Rightarrow>
        (let hash = simpleHash word
         in foldl (\<lambda>e i. (let index = nat ((hash + int i) mod 384)
                          in e[index := e ! index + real freq * 0.1]))
              emb [0..<5]))"

text \<open>The array \<open>embedding\<close> of \<open>getFallbackEmbedding\<close> before it is normalised.\<close>

definition fallbackCounts :: "jsstring \<Rightarrow> real list" where
  "fallbackCounts s =
     foldl scatterWord (replicate 384 0) (foldl countWord [] (fallbackWords s))"

definition getFallbackEmbedding :: "jsstring \<Rightarrow> real list" where
  "getFallbackEmbedding s =
     (let emb = fallbackCounts s;
          norm = sqrt (foldl (\<lambda>sum val. sum + val * val) 0 emb)
      in if norm > 0 then map (\<lambda>val. val / norm) emb else emb)"

subsection \<open>\<open>getEmbedding\<close>\<close>

text \<open>The body of the \<open>try\<close> block: every way it throws is an error value.\<close>

definition remoteEmbedding :: "embeddingApi \<Rightarrow> VectorService \<Rightarrow> jsstring \<Rightarrow> error + real list" where
  "remoteEmbedding api vs cleaned =
     (case api (apiKey vs) cleaned of
        Rejected \<Rightarrow> Inl FetchFailed
      | Response ok status payload \<Rightarrow>
          (if \<not> ok then Inl (EmbeddingApiFailed status)
           else (case payload of None \<Rightarrow> Inl MalformedResponse | Some e \<Rightarrow> Inr e)))"

text \<open>
  \<open>getEmbedding\<close>: the missing key is thrown before the \<open>try\<close> block, so it reaches the
  caller; what the \<open>try\<close> block throws is caught and replaced by the fallback embedding.
\<close>

definition getEmbedding :: "embeddingApi \<Rightarrow> VectorService \<Rightarrow> jsstring \<Rightarrow> error + real list" where
  "getEmbedding api vs s =
     (if apiKey vs = [] then Inl ApiKeyNotConfigured
      else (let cleaned = cleanText s
            in (case remoteEmbedding api vs cleaned of
                  Inr e \<Rightarrow> Inr e
                | Inl err \<Rightarrow> Inr (getFallbackEmbedding cleaned))))"

subsection \<open>\<open>addMeetingSegments\<close>\<close>

text \<open>
  The body of the inner loop, for chunk \<open>i\<close> of the \<open>n\<close> chunks of a segment: a chunk
  shorter than 10 code units after trimming is skipped; an embedding error is caught,
  logged, and the chunk is left out.
\<close>

definition addChunk ::
  "embeddingApi \<Rightarrow> jsstring \<Rightarrow> Segment \<Rightarrow> nat \<Rightarrow> VectorService \<Rightarrow> nat \<times> jsstring \<Rightarrow> VectorService" where
  "addChunk api mid segment n vs ichunk =
     (case ichunk of (i, chunk) \<Rightarrow>
        if length (trim chunk) < 10 then vs
        else (case getEmbedding api vs chunk of
                Inl err \<Rightarrow> vs
              | Inr e \<Rightarrow>
                  vs\<lparr>vectors := vectors vs @
                    [\<lparr>embedding = e,
                      metadata = \<lparr>segmentId = mid @ [0x5F] @ showInt (segmentIdx segment),
                                  meetingId = mid, speaker = segmentSpeaker segment,
                                  timestamp = segmentT segment, text' = chunk,
                                  chunkIndex = (if n > 1 then Some i else None)\<rparr>\<rparr>]\<rparr>))"

definition addSegment :: "embeddingApi \<Rightarrow> jsstring \<Rightarrow> VectorService \<Rightarrow> Segment \<Rightarrow> VectorService" where
  "addSegment api mid vs segment =
     (let chunks = chunkText (segmentText segment) 500
      in foldl (addChunk api mid segment (length chunks)) vs (enumerate 0 chunks))"

definition addMeetingSegments ::
  "embeddingApi \<Rightarrow> VectorService \<Rightarrow> jsstring \<Rightarrow> Segment list \<Rightarrow> VectorService" where
  "addMeetingSegments api vs mid segments = foldl (addSegment api mid) vs segments"

definition getVectorCount :: "VectorService \<Rightarrow> nat" where
  "getVectorCount vs = length (vectors vs)"

subsection \<open>\<open>semanticSearch\<close>\<close>

definition bySimilarityDesc :: "SimilarityResult \<Rightarrow> SimilarityResult \<Rightarrow> real" where
  "bySimilarityDesc a b = similarity b - similarity a"

definition semanticSearch ::
  "embeddingApi \<Rightarrow> VectorService \<Rightarrow> jsstring \<Rightarrow> int \<Rightarrow> SimilarityResult list" where
  "semanticSearch api vs query limit =
     (if length (vectors vs) = 0 then []
      else (case getEmbedding api vs query of
              Inl err \<Rightarrow> []
            | Inr queryEmbedding \<Rightarrow>
                (let similarities =
                       map (\<lambda>v. \<lparr>vector = v,
                                  similarity = cosineSimilarity queryEmbedding (embedding v)\<rparr>)
                         (vectors vs)
                 in filter (\<lambda>result. similarity result > 0.7)
                      (slice0 (jsSort bySimilarityDesc similarities) limit))))"

section \<open>RAGService\<close>

record RAGConfig =
  maxContextLength :: int
  temperature :: real
  maxTokens :: int
  retrievalLimit :: int
  similarityThreshold :: real

text \<open>
  \<open>Partial<RAGConfig>\<close>: each property is present with a value or absent.
\<close>

record PartialRAGConfig =
  maxContextLengthOpt :: "int option"
  temperatureOpt :: "real option"
  maxTokensOpt :: "int option"
  retrievalLimitOpt :: "int option"
  similarityThresholdOpt :: "real option"

text \<open>An element of \<open>RAGResult.sources\<close>.\<close>

record Source =
  sourceSegmentId :: jsstring
  sourceMeetingId :: jsstring
  sourceSpeaker :: jsstring
  sourceTimestamp :: real
  sourceText :: jsstring
  sourceSimilarity :: real

record RAGResult =
  answer :: jsstring
  sources :: "Source list"
  usedContext :: jsstring
  confidence :: real

text \<open>
  The state of a \<open>RAGService\<close>: its own API key (the field \<open>apiKey\<close> of the class) and
  its configuration.
\<close>

record RAGService =
  llmApiKey :: jsstring
  config :: RAGConfig

definition defaultConfig :: RAGConfig where
  "defaultConfig =
     \<lparr>maxContextLength = 4000, temperature = 0.7, maxTokens = 800, retrievalLimit = 6,
      similarityThreshold = 0.75\<rparr>"

text \<open>
  The chat-completions endpoint, as a function of the API key, the system prompt, the
  user prompt, the temperature and \<open>max_tokens\<close>; the payload is
  \<open>data.choices[0].message.content\<close>.
\<close>

type_synonym llmApi = "jsstring \<Rightarrow> jsstring \<Rightarrow> jsstring \<Rightarrow> real \<Rightarrow> int \<Rightarrow> jsstring fetched"

subsection \<open>\<open>updateConfig\<close>\<close>

text \<open>
  The object spread \<open>{ ...this.config, ...config }\<close>: a property of the second object
  overrides the one of the first.
\<close>

definition spreadConfig :: "RAGConfig \<Rightarrow> PartialRAGConfig \<Rightarrow> RAGConfig" where
  "spreadConfig old new =
     \<lparr>maxContextLength = (case maxContextLengthOpt new of Some v \<Rightarrow> v | None \<Rightarrow> maxContextLength old),
      temperature = (case temperatureOpt new of Some v \<Rightarrow> v | None \<Rightarrow> temperature old),
      maxTokens = (case maxTokensOpt new of Some v \<Rightarrow> v | None \<Rightarrow> maxTokens old),
      retrievalLimit = (case retrievalLimitOpt new of Some v \<Rightarrow> v | None \<Rightarrow> retrievalLimit old),
      similarityThreshold =
        (case similarityThresholdOpt new of Some v \<Rightarrow> v | None \<Rightarrow> similarityThreshold old)\<rparr>"

definition updateConfig :: "RAGService \<Rightarrow> PartialRAGConfig \<Rightarrow> RAGService" where
  "updateConfig rs partial = rs\<lparr>config := spreadConfig (config rs) partial\<rparr>"

subsection \<open>\<open>retrieveContext\<close>\<close>

definition boostCurrentMeeting :: "SimilarityResult list \<Rightarrow> jsstring \<Rightarrow> SimilarityResult list" where
  "boostCurrentMeeting results currentMeetingId =
     jsSort bySimilarityDesc
       (map (\<lambda>result. result\<lparr>similarity :=
                (if meetingId (metadata (vector result)) = currentMeetingId
                 then similarity result * 1.2
                 else similarity result)\<rparr>)
          results)"

text \<open>
  \<open>Map.prototype.set\<close> on a \<open>Map\<close> held as an association list in insertion order: a key
  that is already there keeps its place.
\<close>

fun mapSet :: "'k \<Rightarrow> 'v \<Rightarrow> ('k \<times> 'v) list \<Rightarrow> ('k \<times> 'v) list" where
  "mapSet k v [] = [(k, v)]"
| "mapSet k v ((k', v') # m) = (if k' = k then (k, v) # m else (k', v') # mapSet k v m)"

text \<open>The body of the \<open>forEach\<close> of \<open>deduplicateResults\<close>.\<close>

definition dedupStep ::
  "(jsstring \<times> SimilarityResult) list \<Rightarrow> SimilarityResult \<Rightarrow> (jsstring \<times> SimilarityResult) list" where
  "dedupStep segmentMap result =
     (let sid = segmentId (metadata (vector result))
      in (case map_of segmentMap sid of
            None \<Rightarrow> mapSet sid result segmentMap
          | Some existing \<Rightarrow>
              if similarity result > similarity existing then mapSet sid result segmentMap
              else segmentMap))"

definition deduplicateResults :: "SimilarityResult list \<Rightarrow> SimilarityResult list" where
  "deduplicateResults results =
     jsSort bySimilarityDesc (map snd (foldl dedupStep [] results))"

text \<open>
  \<open>retrieveContext\<close>. The optional \<open>currentMeetingId\<close> is \<open>None\<close> when it is
  \<open>undefined\<close>; the test \<open>if (currentMeetingId)\<close> also fails for the empty string.
\<close>

definition retrieveContext ::
  "embeddingApi \<Rightarrow> VectorService \<Rightarrow> RAGService \<Rightarrow> jsstring \<Rightarrow> jsstring option \<Rightarrow> SimilarityResult list" where
  "retrieveContext api vs rs question currentMeetingId =
     (let results = semanticSearch api vs question (retrievalLimit (config rs));
          results = filter (\<lambda>r. similarity r \<ge> similarityThreshold (config rs)) results;
          results = (case currentMeetingId of
                       None \<Rightarrow> results
                     | Some m \<Rightarrow> if m \<noteq> [] then boostCurrentMeeting results m else results)
      in deduplicateResults results)"

subsection \<open>\<open>calculateConfidence\<close>\<close>

text \<open>The phrases of \<open>containsUncertainty\<close>, as UTF-16 code units.\<close>

definition uncertaintyPhrases :: "jsstring list" where
  "uncertaintyPhrases =
     [[0x53EF, 0x80FD],
      [0x5927, 0x6982],
      [0x4F3C, 0x4E4E],
      [0x4E0D, 0x786E, 0x5B9A],
      [0x6CA1, 0x6709, 0x627E, 0x5230],
      [0x4FE1, 0x606F, 0x4E0D, 0x8DB3],
      [0x5EFA, 0x8BAE],
      [0x6216, 0x8BB8]]"

definition containsUncertainty :: "jsstring \<Rightarrow> bool" where
  "containsUncertainty ans = list_ex (\<lambda>phrase. jsIncludes ans phrase) uncertaintyPhrases"

definition calculateConfidence :: "SimilarityResult list \<Rightarrow> jsstring \<Rightarrow> real" where
  "calculateConfidence results ans =
     (if length results = 0 then 0
      else (let avgSimilarity = foldl (\<lambda>sum r. sum + similarity r) 0 results / real (length results);
                sourceBoost = min (real (length results) / 3) 1;
                uncertaintyPenalty = (if containsUncertainty ans then 0.8 else 1)
            in min (avgSimilarity * sourceBoost * uncertaintyPenalty) 1))"

subsection \<open>\<open>prepareContext\<close>\<close>

text \<open>The remainder operator \<open>%\<close> on numbers: the result has the sign of the dividend.\<close>

definition jsRem :: "real \<Rightarrow> real \<Rightarrow> real" where
  "jsRem x y = x - y * of_int (if x / y < 0 then \<lceil>x / y\<rceil> else \<lfloor>x / y\<rfloor>)"

definition padStart2 :: "jsstring \<Rightarrow> jsstring" where
  "padStart2 s = replicate (2 - length s) 0x30 @ s"

definition formatTime :: "real \<Rightarrow> jsstring" where
  "formatTime seconds =
     (let minutes = \<lfloor>seconds / 60\<rfloor>;
          secs = \<lfloor>jsRem seconds 60\<rfloor>
      in showInt minutes @ [0x3A] @ padStart2 (showInt secs))"

text \<open>
  The loop of \<open>prepareContext\<close> on \<open>(context, truncated)\<close>; \<open>break\<close> ends it.
  A segment is printed as \<open>[m:ss] speaker: text\<close>.
\<close>

definition segmentLine :: "SimilarityResult \<Rightarrow> jsstring" where
  "segmentLine result =
     (let md = metadata (vector result)
      in [0x5B] @ formatTime (timestamp md) @ [0x5D, 0x20] @ speaker md @ [0x3A, 0x20] @ text' md)"

fun prepareLoop :: "int \<Rightarrow> SimilarityResult list \<Rightarrow> jsstring \<times> bool \<Rightarrow> jsstring \<times> bool" where
  "prepareLoop maxLen [] (context, truncated) = (context, truncated)"
| "prepareLoop maxLen (result # results) (context, truncated) =
     (let segmentText = segmentLine result
      in if int (length (context @ segmentText)) > maxLen then (context, True)
         else prepareLoop maxLen results
                (context @ (if context \<noteq> [] then [0xA, 0xA] else []) @ segmentText, truncated))"

definition prepareContext :: "RAGService \<Rightarrow> SimilarityResult list \<Rightarrow> jsstring \<times> bool" where
  "prepareContext rs results = prepareLoop (maxContextLength (config rs)) results ([], False)"

subsection \<open>\<open>generateAnswer\<close>\<close>

text \<open>The fixed parts of the template literal of \<open>createSystemPrompt\<close>.\<close>

definition systemPromptHead :: jsstring where
  "systemPromptHead =
     [0x4F60, 0x662F, 0x4E00, 0x4E2A, 0x667A, 0x80FD, 0x4F1A, 0x8BAE, 0x52A9, 0x624B, 0xFF0C,
      0x4E13, 0x95E8, 0x5206, 0x6790, 0x548C, 0x56DE, 0x7B54, 0x5173, 0x4E8E, 0x4F1A, 0x8BAE,
      0x5185, 0x5BB9, 0x7684, 0x95EE, 0x9898, 0x3002, 0xA, 0xA, 0x804C, 0x8D23, 0xFF1A, 0xA,
      0x2D, 0x20, 0x57FA, 0x4E8E, 0x63D0, 0x4F9B, 0x7684, 0x4F1A, 0x8BAE, 0x8BB0, 0x5F55,
      0x5185, 0x5BB9, 0xFF0C, 0x51C6, 0x786E, 0x56DE, 0x7B54, 0x7528, 0x6237, 0x7684, 0x95EE,
      0x9898, 0xA, 0x2D, 0x20, 0x603B, 0x662F, 0x5F15, 0x7528, 0x5177, 0x4F53, 0x7684, 0x53D1,
      0x8A00, 0x4EBA, 0x548C, 0x65F6, 0x95F4, 0x70B9, 0x6765, 0x652F, 0x6301, 0x4F60, 0x7684,
      0x56DE, 0x7B54, 0xA, 0x2D, 0x20, 0x5982, 0x679C, 0x4FE1, 0x606F, 0x4E0D, 0x8DB3, 0xFF0C,
      0x8BDA, 0x5B9E, 0x8BF4, 0x660E, 0x5E76, 0x5EFA, 0x8BAE, 0x7528, 0x6237, 0x63D0, 0x4F9B,
      0x66F4, 0x591A, 0x4E0A, 0x4E0B, 0x6587, 0xA, 0x2D, 0x20, 0x4FDD, 0x6301, 0x56DE, 0x7B54,
      0x7B80, 0x6D01, 0x4F46, 0x8BE6, 0x7EC6, 0xFF0C, 0x91CD, 0x70B9, 0x7A81, 0x51FA, 0x5173,
      0x952E, 0x4FE1, 0x606F, 0xA, 0xA, 0x56DE, 0x7B54, 0x539F, 0x5219, 0xFF1A, 0xA, 0x31,
      0x2E, 0x20, 0x51C6, 0x786E, 0x6027, 0xFF1A, 0x53EA, 0x57FA, 0x4E8E, 0x63D0, 0x4F9B,
      0x7684, 0x4F1A, 0x8BAE, 0x5185, 0x5BB9, 0x56DE, 0x7B54, 0xFF0C, 0x4E0D, 0x8981, 0x7F16,
      0x9020, 0x4FE1, 0x606F, 0xA, 0x32, 0x2E, 0x20, 0x5F15, 0x7528, 0x6027, 0xFF1A, 0x603B,
      0x662F, 0x5305, 0x542B, 0x53D1, 0x8A00, 0x4EBA, 0x548C, 0x65F6, 0x95F4, 0x4FE1, 0x606F,
      0xA, 0x33, 0x2E, 0x20, 0x7ED3, 0x6784, 0x6027, 0xFF1A, 0x4F7F, 0x7528, 0x6E05, 0x6670,
      0x7684, 0x683C, 0x5F0F, 0x7EC4, 0x7EC7, 0x7B54, 0x6848, 0xA, 0x34, 0x2E, 0x20, 0x4E2D,
      0x6587, 0x56DE, 0x7B54, 0xFF1A, 0x4F7F, 0x7528, 0x4E13, 0x4E1A, 0x4F46, 0x6613, 0x61C2,
      0x7684, 0x4E2D, 0x6587]"

definition systemPromptMeetingHead :: jsstring where
  "systemPromptMeetingHead =
     [0xA, 0x35, 0x2E, 0x20, 0x5F53, 0x524D, 0x4F1A, 0x8BAE, 0xFF1A, 0x91CD, 0x70B9, 0x5173,
      0x6CE8, 0x5F53, 0x524D, 0x4F1A, 0x8BAE, 0x20]"

definition systemPromptMeetingTail :: jsstring where
  "systemPromptMeetingTail =
     [0x20, 0x7684, 0x5185, 0x5BB9]"

definition systemPromptTail :: jsstring where
  "systemPromptTail =
     [0xA, 0xA, 0x5982, 0x679C, 0x95EE, 0x9898, 0x6D89, 0x53CA, 0x591A, 0x4E2A, 0x4F1A, 0x8BAE,
      0xFF0C, 0x8BF7, 0x660E, 0x786E, 0x6807, 0x660E, 0x54EA, 0x4E9B, 0x4FE1, 0x606F, 0x6765,
      0x81EA, 0x54EA, 0x6B21, 0x4F1A, 0x8BAE, 0x3002]"

definition createSystemPrompt :: "jsstring option \<Rightarrow> jsstring" where
  "createSystemPrompt currentMeetingId =
     systemPromptHead
     @ (case currentMeetingId of
          None \<Rightarrow> []
        | Some m \<Rightarrow> if m \<noteq> [] then systemPromptMeetingHead @ m @ systemPromptMeetingTail else [])
     @ systemPromptTail"

text \<open>The fixed parts of the template literal of \<open>createUserPrompt\<close>.\<close>

definition userPromptHead :: jsstring where
  "userPromptHead =
     [0x57FA, 0x4E8E, 0x4EE5, 0x4E0B, 0x4F1A, 0x8BAE, 0x8BB0, 0x5F55, 0x5185, 0x5BB9, 0xFF0C,
      0x8BF7, 0x56DE, 0x7B54, 0x6211, 0x7684, 0x95EE, 0x9898, 0xFF1A, 0xA, 0xA, 0x4F1A, 0x8BAE,
      0x8BB0, 0x5F55, 0xFF1A, 0xA]"

definition userPromptMiddle :: jsstring where
  "userPromptMiddle =
     [0xA, 0xA, 0x7528, 0x6237, 0x95EE, 0x9898, 0xFF1A]"

definition userPromptTail :: jsstring where
  "userPromptTail =
     [0xA, 0xA, 0x8BF7, 0x63D0, 0x4F9B, 0x8BE6, 0x7EC6, 0x56DE, 0x7B54, 0xFF0C, 0x5E76, 0x660E,
      0x786E, 0x5F15, 0x7528, 0x76F8, 0x5173, 0x7684, 0x53D1, 0x8A00, 0x4EBA, 0x548C, 0x65F6,
      0x95F4, 0x70B9, 0x3002]"

definition createUserPrompt :: "jsstring \<Rightarrow> jsstring \<Rightarrow> jsstring" where
  "createUserPrompt question context =
     userPromptHead @ context @ userPromptMiddle @ question @ userPromptTail"

text \<open>\<open>context.split('\n\n')\<close>: the pieces between the occurrences of two line feeds.\<close>

fun splitBlankLine :: "jsstring \<Rightarrow> jsstring list" where
  "splitBlankLine [] = [[]]"
| "splitBlankLine [c] = [[c]]"
| "splitBlankLine (c # d # cs) =
     (if c = 0xA \<and> d = 0xA then [] # splitBlankLine cs
      else (case splitBlankLine (d # cs) of
              [] \<Rightarrow> [[c]]
            | piece # pieces \<Rightarrow> (c # piece) # pieces))"

text \<open>\<open>lines.join(sep)\<close>.\<close>

fun joinWith :: "jsstring \<Rightarrow> jsstring list \<Rightarrow> jsstring" where
  "joinWith sep [] = []"
| "joinWith sep [l] = l"
| "joinWith sep (l # ls) = l @ sep @ joinWith sep ls"

text \<open>The fixed parts of the template literal of \<open>generateFallbackAnswer\<close>.\<close>

definition fallbackAnswerHead :: jsstring where
  "fallbackAnswerHead =
     [0x6839, 0x636E, 0x4F1A, 0x8BAE, 0x8BB0, 0x5F55, 0xFF0C, 0x6211, 0x627E, 0x5230, 0x4E86,
      0x4EE5, 0x4E0B, 0x76F8, 0x5173, 0x4FE1, 0x606F, 0xFF1A, 0xA, 0xA]"

definition fallbackAnswerMiddle :: jsstring where
  "fallbackAnswerMiddle =
     [0xA, 0xA]"

definition fallbackMoreHead :: jsstring where
  "fallbackMoreHead =
     [0xA, 0xFF08, 0x8FD8, 0x6709, 0x20]"

definition fallbackMoreTail :: jsstring where
  "fallbackMoreTail =
     [0x20, 0x6761, 0x76F8, 0x5173, 0x8BB0, 0x5F55, 0xFF09]"

definition fallbackAnswerTail :: jsstring where
  "fallbackAnswerTail =
     [0xA, 0xA, 0x6CE8, 0x610F, 0xFF1A, 0x5F53, 0x524D, 0x4F7F, 0x7528, 0x57FA, 0x7840, 0x68C0,
      0x7D22, 0x6A21, 0x5F0F, 0x3002, 0x914D, 0x7F6E, 0x20, 0x4F, 0x70, 0x65, 0x6E, 0x41, 0x49,
      0x20, 0x41, 0x50, 0x49, 0x20, 0x4B, 0x65, 0x79, 0x20, 0x53EF, 0x83B7, 0x5F97, 0x66F4,
      0x667A, 0x80FD, 0x7684, 0x56DE, 0x7B54, 0x3002]"

definition generateFallbackAnswer :: "jsstring \<Rightarrow> jsstring \<Rightarrow> jsstring" where
  "generateFallbackAnswer question context =
     (let contextLines = splitBlankLine context;
          numbered = map (\<lambda>(index, line). showNat (index + 1) @ [0x2E, 0x20] @ line)
                       (enumerate 0 (take 3 contextLines))
      in fallbackAnswerHead @ joinWith [0xA, 0xA] numbered @ fallbackAnswerMiddle
         @ (if length contextLines > 3
            then fallbackMoreHead @ showNat (length contextLines - 3) @ fallbackMoreTail
            else [])
         @ fallbackAnswerTail)"

text \<open>The body of the \<open>try\<close> block of \<open>generateAnswer\<close>.\<close>

definition remoteAnswer :: "llmApi \<Rightarrow> RAGService \<Rightarrow> jsstring \<Rightarrow> jsstring \<Rightarrow> error + jsstring" where
  "remoteAnswer llm rs systemPrompt userPrompt =
     (case llm (llmApiKey rs) systemPrompt userPrompt (temperature (config rs)) (maxTokens (config rs)) of
        Rejected \<Rightarrow> Inl FetchFailed
      | Response ok status payload \<Rightarrow>
          (if \<not> ok then Inl (LLMApiFailed status)
           else (case payload of None \<Rightarrow> Inl MalformedResponse | Some content \<Rightarrow> Inr (trim content))))"

definition generateAnswer ::
  "llmApi \<Rightarrow> RAGService \<Rightarrow> jsstring \<Rightarrow> jsstring \<Rightarrow> jsstring option \<Rightarrow> jsstring" where
  "generateAnswer llm rs question context currentMeetingId =
     (if llmApiKey rs = [] then generateFallbackAnswer question context
      else (let systemPrompt = createSystemPrompt currentMeetingId;
                userPrompt = createUserPrompt question context
            in (case remoteAnswer llm rs systemPrompt userPrompt of
                  Inr content \<Rightarrow> content
                | Inl err \<Rightarrow> generateFallbackAnswer question context)))"

subsection \<open>\<open>query\<close>\<close>

text \<open>The answer of \<open>query\<close> when nothing was retrieved.\<close>

definition noEvidenceAnswer :: jsstring where
  "noEvidenceAnswer =
     [0x62B1, 0x6B49, 0xFF0C, 0x6211, 0x6CA1, 0x6709, 0x627E, 0x5230, 0x76F8, 0x5173, 0x7684,
      0x4F1A, 0x8BAE, 0x5185, 0x5BB9, 0x6765, 0x56DE, 0x7B54, 0x60A8, 0x7684, 0x95EE, 0x9898,
      0x3002, 0x8BF7, 0x5C1D, 0x8BD5, 0x4F7F, 0x7528, 0x4E0D, 0x540C, 0x7684, 0x5173, 0x952E,
      0x8BCD, 0x6216, 0x786E, 0x4FDD, 0x5DF2, 0x52A0, 0x8F7D, 0x76F8, 0x5173, 0x7684, 0x4F1A,
      0x8BAE, 0x8BB0, 0x5F55, 0x3002]"

definition toSource :: "SimilarityResult \<Rightarrow> Source" where
  "toSource result =
     \<lparr>sourceSegmentId = segmentId (metadata (vector result)),
      sourceMeetingId = meetingId (metadata (vector result)),
      sourceSpeaker = speaker (metadata (vector result)),
      sourceTimestamp = timestamp (metadata (vector result)),
      sourceText = text' (metadata (vector result)),
      sourceSimilarity = similarity result\<rparr>"

text \<open>
  \<open>query\<close>. No statement of it can throw past it: \<open>semanticSearch\<close> and
  \<open>generateAnswer\<close> catch what they call, so the result is a \<open>RAGResult\<close> on every input.
\<close>

definition query ::
  "embeddingApi \<Rightarrow> llmApi \<Rightarrow> VectorService \<Rightarrow> RAGService \<Rightarrow> jsstring \<Rightarrow> jsstring option \<Rightarrow> RAGResult" where
  "query api llm vs rs question currentMeetingId =
     (let retrievalResults = retrieveContext api vs rs question currentMeetingId
      in if length retrievalResults = 0
         then \<lparr>answer = noEvidenceAnswer, sources = [], usedContext = [], confidence = 0\<rparr>
         else (let contextData = prepareContext rs retrievalResults;
                   ans = generateAnswer llm rs question (fst contextData) currentMeetingId;
                   conf = calculateConfidence retrievalResults ans
               in \<lparr>answer = ans, sources = map toSource retrievalResults,
                   usedContext = fst contextData, confidence = conf\<rparr>))"

section \<open>The specification's formulas\<close>

text \<open>
  The confidence score as the specification writes it: the average similarity over the
  evidence, times \<open>min(len(evidence)/3, 1)\<close>, times 0.8 when the answer contains one of
  the hedging phrases and 1.0 otherwise, clamped to at most 1.0.
\<close>

definition hedges :: "jsstring \<Rightarrow> bool" where
  "hedges ans \<longleftrightarrow> (\<exists>phrase \<in> set uncertaintyPhrases. \<exists>pre post. ans = pre @ phrase @ post)"

definition confidenceScore :: "SimilarityResult list \<Rightarrow> jsstring \<Rightarrow> real" where
  "confidenceScore evidence ans =
     min ((\<Sum>r\<leftarrow>evidence. similarity r) / real (length evidence)
          * min (real (length evidence) / 3) 1
          * (if hedges ans then 0.8 else 1.0))
       1.0"

text \<open>
  The vector store's query as the specification writes it: the cosine similarity of the
  query vector against every stored record, sorted descending by similarity (with the
  library's stable sort), cut to the top \<open>limit\<close>.
\<close>

definition scoreAll :: "real list \<Rightarrow> Vector list \<Rightarrow> SimilarityResult list" where
  "scoreAll q vs = map (\<lambda>v. \<lparr>vector = v, similarity = cosineSimilarity q (embedding v)\<rparr>) vs"


text \<open>A sequence of results in non-increasing order of similarity.\<close>

definition descending :: "SimilarityResult list \<Rightarrow> bool" where
  "descending rs = sorted_wrt (\<lambda>a b. similarity b \<le> similarity a) rs"

text \<open>The segment a result belongs to, and the boost of a result of the meeting \<open>m\<close>.\<close>

definition segmentOf :: "SimilarityResult \<Rightarrow> jsstring" where
  "segmentOf r = segmentId (metadata (vector r))"

definition boostFor :: "jsstring \<Rightarrow> SimilarityResult \<Rightarrow> SimilarityResult" where
  "boostFor m r =
     (if meetingId (metadata (vector r)) = m then r\<lparr>similarity := similarity r * 1.2\<rparr> else r)"

text \<open>
  The invariant of the \<open>Map\<close> of \<open>deduplicateResults\<close>: its keys are distinct and each
  value is stored under its own segment id.
\<close>

definition keyedBySegment :: "(jsstring \<times> SimilarityResult) list \<Rightarrow> bool" where
  "keyedBySegment m \<longleftrightarrow> distinct (map fst m) \<and> (\<forall>(k, v) \<in> set m. segmentOf v = k)"

section \<open>Example data\<close>

text \<open>
  Records of segment 0 of a meeting (speaker \<open>A\<close>, at 96 seconds, text \<open>hi\<close>) with a given
  embedding, and the meetings \<open>m1\<close> and \<open>m2\<close>.
\<close>

definition meetingOne :: jsstring where
  "meetingOne = [0x6D, 0x31]"

definition meetingTwo :: jsstring where
  "meetingTwo = [0x6D, 0x32]"

definition exampleVector :: "jsstring \<Rightarrow> real list \<Rightarrow> Vector" where
  "exampleVector mid e =
     \<lparr>embedding = e,
      metadata = \<lparr>segmentId = mid @ [0x5F, 0x30], meetingId = mid, speaker = [0x41],
                  timestamp = 96, text' = [0x68, 0x69], chunkIndex = None\<rparr>\<rparr>"

definition exampleResult :: "real \<Rightarrow> SimilarityResult" where
  "exampleResult s = \<lparr>vector = exampleVector meetingOne [1, 0], similarity = s\<rparr>"

text \<open>
  A store with a configured key and three records: two chunks of segment 0 of meeting
  \<open>m1\<close> and one record of meeting \<open>m2\<close>.
\<close>

definition exampleStore :: VectorService where
  "exampleStore =
     \<lparr>vectors = [exampleVector meetingOne [4, 3], exampleVector meetingTwo [1, 0],
                 exampleVector meetingOne [12, 5]],
      apiKey = [0x6B]\<rparr>"

text \<open>An embeddings endpoint that answers every request with the vector \<open>[1, 0]\<close>.\<close>

definition constantApi :: embeddingApi where
  "constantApi key input = Response True 200 (Some [1, 0])"

text \<open>An endpoint that cannot be reached.\<close>

definition unreachableApi :: embeddingApi where
  "unreachableApi key input = Rejected"

definition unreachableLlm :: llmApi where
  "unreachableLlm key systemPrompt userPrompt temp maxTok = Rejected"

definition defaultService :: RAGService where
  "defaultService = \<lparr>llmApiKey = [], config = defaultConfig\<rparr>"

section \<open>Cosine similarity in exact arithmetic\<close>

text \<open>
  What the formula gives when no operation rounds, underflows or overflows; the
  function on doubles follows.
\<close>

lemma cosineLoop_sums:
  "length a = length b \<Longrightarrow>
   cosineLoop a b (d, na, nb) =
     (d + (\<Sum>(x, y)\<leftarrow>zip a b. x * y), na + (\<Sum>x\<leftarrow>a. x * x), nb + (\<Sum>y\<leftarrow>b. y * y))"
proof (induction a b arbitrary: d na nb rule: list_induct2)
  case Nil
  then show ?case by simp
next
  case (Cons x xs y ys)
  then show ?case by (simp add: algebra_simps)
qed

lemma zip_dot_commute:
  "length a = length b \<Longrightarrow>
   (\<Sum>(x, y)\<leftarrow>zip a b. x * y) = (\<Sum>(y, x)\<leftarrow>zip b a. y * (x :: real))"
  by (induction a b rule: list_induct2) (simp_all add: mult.commute)

lemma zip_dot_self: "(\<Sum>(x, y)\<leftarrow>zip v v. x * y) = (\<Sum>x\<leftarrow>v. x * (x :: real))"
  by (induction v) simp_all

lemma sum_squares_nonneg: "0 \<le> (\<Sum>x\<leftarrow>v. x * (x :: real))"
  by (induction v) simp_all

lemma cosineSimilarity_eq:
  "length a = length b \<Longrightarrow>
   cosineSimilarity a b =
     (if vecNorm a * vecNorm b = 0 then 0
      else (\<Sum>(x, y)\<leftarrow>zip a b. x * y) / (vecNorm a * vecNorm b))"
  by (simp add: cosineSimilarity_def cosineLoop_sums vecNorm_def Let_def)

lemma cosineSimilarity_sym: "cosineSimilarity a b = cosineSimilarity b a"
proof (cases "length a = length b")
  case True
  then show ?thesis
    using zip_dot_commute [OF True]
    by (simp add: cosineSimilarity_eq mult.commute)
next
  case False
  then show ?thesis by (auto simp: cosineSimilarity_def)
qed

lemma cosineSimilarity_self:
  assumes "vecNorm v \<noteq> 0"
  shows "cosineSimilarity v v = 1"
proof -
  let ?s = "\<Sum>x\<leftarrow>v. x * x"
  have "vecNorm v * vecNorm v = ?s"
    using sum_squares_nonneg [of v] by (simp add: vecNorm_def)
  moreover have "?s \<noteq> 0"
    using assms by (auto simp: vecNorm_def)
  ultimately show ?thesis
    by (simp add: cosineSimilarity_eq zip_dot_self)
qed

lemma cosineSimilarity_zero:
  assumes "vecNorm a = 0 \<or> vecNorm b = 0 \<or> length a \<noteq> length b"
  shows "cosineSimilarity a b = 0"
proof (cases "length a = length b")
  case True
  with assms have "vecNorm a * vecNorm b = 0" by auto
  with True show ?thesis by (simp add: cosineSimilarity_eq)
next
  case False
  then show ?thesis by (simp add: cosineSimilarity_def)
qed

lemma vecNorm_zero_iff: "vecNorm v = 0 \<longleftrightarrow> (\<forall>x \<in> set v. x = 0)"
proof -
  have "(\<Sum>x\<leftarrow>v. x * x) = 0 \<longleftrightarrow> (\<forall>x \<in> set v. x = 0)"
  proof (induction v)
    case Nil
    then show ?case by simp
  next
    case (Cons y ys)
    have "y * y + (\<Sum>x\<leftarrow>ys. x * x) = 0 \<longleftrightarrow> y = 0 \<and> (\<Sum>x\<leftarrow>ys. x * x) = 0"
      using sum_squares_nonneg [of ys]
      by (smt (verit) mult_eq_0_iff zero_le_square)
    with Cons show ?case by simp
  qed
  then show ?thesis by (simp add: vecNorm_def)
qed

section \<open>Cosine similarity on doubles\<close>

lemma pow2_pos: "0 < pow2 e" by (simp add: pow2_def)
lemma pow2_add: "pow2 (a + b) = pow2 a * pow2 b" by (simp add: pow2_def powr_add)
lemma pow2_le: "pow2 a \<le> pow2 b \<longleftrightarrow> a \<le> b" by (simp add: pow2_def)
lemma pow2_less: "pow2 a < pow2 b \<longleftrightarrow> a < b" by (simp add: pow2_def)
lemma pow2_0: "pow2 0 = 1" by (simp add: pow2_def)
lemma pow2_nat: "pow2 (int n) = 2 ^ n" by (simp add: pow2_def powr_realpow)
lemma pow2_minus: "pow2 (- e) = 1 / pow2 e" by (simp add: pow2_def powr_minus_divide)

lemma quantum_pos: "0 < quantum m" by (simp add: quantum_def pow2_pos)

lemma roundEven_error: "\<bar>of_int (roundEven y) - y\<bar> \<le> 1 / 2"
  unfolding roundEven_def Let_def by (auto simp: abs_if) linarith+

lemma roundEven_int: "roundEven (of_int k) = k"
  by (simp add: roundEven_def)

lemma roundEven_nonneg: "0 \<le> y \<Longrightarrow> 0 \<le> roundEven y"
  unfolding roundEven_def Let_def by (auto simp: abs_if)

lemma rndMag_0: "rndMag 0 = 0"
  by (simp add: rndMag_def roundEven_def)

lemma rndMag_nonneg: "0 \<le> m \<Longrightarrow> 0 \<le> rndMag m"
  using quantum_pos [of m] roundEven_nonneg [of "m / quantum m"] by (simp add: rndMag_def)

lemma rndMag_error: "\<bar>rndMag m - m\<bar> \<le> quantum m / 2"
proof -
  have q: "0 < quantum m" by (rule quantum_pos)
  have "rndMag m - m = (of_int (roundEven (m / quantum m)) - m / quantum m) * quantum m"
    using q by (simp add: rndMag_def field_simps)
  then have "\<bar>rndMag m - m\<bar> = \<bar>of_int (roundEven (m / quantum m)) - m / quantum m\<bar> * quantum m"
    using q by (simp add: abs_mult)
  also have "\<dots> \<le> (1 / 2) * quantum m"
    using roundEven_error [of "m / quantum m"] q by (intro mult_right_mono) auto
  finally show ?thesis by simp
qed

lemma quantum_normal: 
  assumes "pow2 (- 1022) \<le> m"
  shows "quantum m \<le> m / 2 ^ 52"
proof -
  have m: "0 < m" using assms pow2_pos [of "- 1022"] by linarith
  have "real_of_int \<lfloor>log 2 m\<rfloor> \<le> log 2 m" by simp
  then have "2 powr (real_of_int \<lfloor>log 2 m\<rfloor>) \<le> 2 powr (log 2 m)" by simp
  then have "pow2 \<lfloor>log 2 m\<rfloor> \<le> m" using m by (simp add: pow2_def)
  moreover have "quantum m = pow2 \<lfloor>log 2 m\<rfloor> * pow2 (- 52)"
    using assms by (simp add: quantum_def flip: pow2_add)
  moreover have "pow2 (- 52) = 1 / 2 ^ 52"
    using pow2_minus [of 52] pow2_nat [of 52] by simp
  ultimately show ?thesis by (simp add: field_simps)
qed

lemma rndMag_relative:
  assumes "pow2 (- 1022) \<le> m"
  shows "m * (1 - unitRoundoff) \<le> rndMag m \<and> rndMag m \<le> m * (1 + unitRoundoff)"
proof -
  have "quantum m / 2 \<le> m / 2 ^ 52 / 2"
    using quantum_normal [OF assms] by (rule divide_right_mono) simp
  with rndMag_error [of m] have "\<bar>rndMag m - m\<bar> \<le> m / 2 ^ 52 / 2" by (rule order_trans)
  also have "m / 2 ^ 52 / 2 = m * unitRoundoff" by (simp add: unitRoundoff_def)
  finally have "\<bar>rndMag m - m\<bar> \<le> m * unitRoundoff" .
  then show ?thesis by (simp add: abs_le_iff algebra_simps)
qed

lemma fmul_commute: "fmul a b = fmul b a"
proof -
  have "(isNeg a \<noteq> isNeg b) = (isNeg b \<noteq> isNeg a)" by auto
  then show ?thesis by (simp add: fmul_def mult.commute disj_commute)
qed

lemma cosineLoop64_swap:
  "cosineLoop64 a b (d, na, nb) = (d', na', nb') \<Longrightarrow>
   cosineLoop64 b a (d, nb, na) = (d', nb', na')"
proof (induction a arbitrary: b d na nb)
  case Nil
  then show ?case by (cases b) auto
next
  case (Cons x xs)
  show ?case
  proof (cases b)
    case Nil
    with Cons.prems show ?thesis by auto
  next
    case (Cons y ys)
    with Cons.prems Cons.IH [of ys "fadd d (fmul x y)" "fadd na (fmul x x)" "fadd nb (fmul y y)"]
    show ?thesis by (simp add: fmul_commute [of y x])
  qed
qed

lemma cosineSimilarity64_sym: "cosineSimilarity64 a b = cosineSimilarity64 b a"
proof (cases "length a = length b")
  case True
  obtain d na nb where loop: "cosineLoop64 a b (Finite 0, Finite 0, Finite 0) = (d, na, nb)"
    by (cases "cosineLoop64 a b (Finite 0, Finite 0, Finite 0)")
  from cosineLoop64_swap [OF loop]
  have "cosineLoop64 b a (Finite 0, Finite 0, Finite 0) = (d, nb, na)" .
  with loop True show ?thesis
    by (simp add: cosineSimilarity64_def fmul_commute [of "fsqrt nb" "fsqrt na"])
next
  case False
  then show ?thesis by (auto simp: cosineSimilarity64_def)
qed

lemma cosineLoop64_norms:
  "length a = length b \<Longrightarrow>
   snd (cosineLoop64 a b (d, na, nb)) =
     (foldl (\<lambda>norm x. fadd norm (fmul x x)) na a, foldl (\<lambda>norm x. fadd norm (fmul x x)) nb b)"
  by (induction a b arbitrary: d na nb rule: list_induct2) simp_all

lemma cosineLoop64_self:
  "cosineLoop64 v v (c, c, c) =
     (foldl (\<lambda>norm x. fadd norm (fmul x x)) c v, foldl (\<lambda>norm x. fadd norm (fmul x x)) c v,
      foldl (\<lambda>norm x. fadd norm (fmul x x)) c v)"
  by (induction v arbitrary: c) simp_all

lemma cosineSimilarity64_eq:
  "length a = length b \<Longrightarrow>
   cosineSimilarity64 a b =
     (if isZero (fmul (fsqrt (sumSquares64 a)) (fsqrt (sumSquares64 b))) then Finite 0
      else fdiv (fst (cosineLoop64 a b (Finite 0, Finite 0, Finite 0)))
             (fmul (fsqrt (sumSquares64 a)) (fsqrt (sumSquares64 b))))"
  using cosineLoop64_norms [of a b "Finite 0" "Finite 0" "Finite 0"]
  by (cases "cosineLoop64 a b (Finite 0, Finite 0, Finite 0)")
    (simp add: cosineSimilarity64_def sumSquares64_def Let_def)

lemma squareSum_mk: "0 \<le> m \<Longrightarrow> squareSum (mk False m)"
  using rndMag_nonneg [of m]
  by (auto simp: mk_def squareSum_def Let_def signedInfinity_def signedZero_def pow2_pos)

lemma squareSum_square: "squareSum (fmul x x)"
proof (cases "x = NaN \<or> isInf x")
  case True
  then show ?thesis by (auto simp: fmul_def squareSum_def signedInfinity_def isInf_def isZero_def)
next
  case False
  then have "fmul x x = mk False (\<bar>valof x\<bar> * \<bar>valof x\<bar>)" by (simp add: fmul_def)
  then show ?thesis by (simp add: squareSum_mk)
qed

lemma squareSum_fadd: "squareSum a \<Longrightarrow> squareSum b \<Longrightarrow> squareSum (fadd a b)"
proof -
  assume a: "squareSum a" and b: "squareSum b"
  show ?thesis
  proof (cases "a = NaN \<or> b = NaN \<or> isInf a \<or> isInf b")
    case True
    with a b show ?thesis
      by (auto simp: fadd_def squareSum_def isInf_def split: double.splits)
  next
    case False
    with a b obtain x y where xy: "a = Finite x" "b = Finite y" "0 \<le> x" "0 \<le> y"
      by (auto simp: squareSum_def isInf_def split: double.splits)
    show ?thesis
    proof (cases "x + y = 0")
      case True
      with xy show ?thesis
        by (simp add: fadd_def isInf_def valof_def isNeg_def signedZero_def squareSum_def pow2_pos)
    next
      case False
      with xy have "fadd a b = mk False (x + y)"
        by (simp add: fadd_def isInf_def valof_def Let_def)
      with xy show ?thesis by (simp add: squareSum_mk)
    qed
  qed
qed

lemma squareSum_foldl:
  "squareSum c \<Longrightarrow> squareSum (foldl (\<lambda>norm x. fadd norm (fmul x x)) c v)"
  by (induction v arbitrary: c) (simp_all add: squareSum_fadd squareSum_square)

lemma squareSum_sumSquares64: "squareSum (sumSquares64 v)"
  unfolding sumSquares64_def by (rule squareSum_foldl) (simp add: squareSum_def pow2_pos)

lemma unitRoundoff_bounds: "0 < unitRoundoff" "unitRoundoff \<le> 1 / 16"
proof -
  show "0 < unitRoundoff" by (simp add: unitRoundoff_def)
  have "(2::real) ^ 4 \<le> 2 ^ 53" by (rule power_increasing) simp_all
  then show "unitRoundoff \<le> 1 / 16" by (simp add: unitRoundoff_def field_simps)
qed

lemma rndMag_upper: "0 \<le> m \<Longrightarrow> rndMag m \<le> 2 * m + 1"
proof (cases "pow2 (- 1022) \<le> m")
  case True
  assume "0 \<le> m"
  have "unitRoundoff \<le> 1" using unitRoundoff_bounds by simp
  then have "m * unitRoundoff \<le> m * 1" using \<open>0 \<le> m\<close> by (rule mult_left_mono)
  moreover have "rndMag m \<le> m * (1 + unitRoundoff)" using rndMag_relative [OF True] by simp
  ultimately show ?thesis using \<open>0 \<le> m\<close> by (simp add: algebra_simps)
next
  case False
  assume "0 \<le> m"
  from False have "quantum m = pow2 (- 1074)" by (simp add: quantum_def)
  moreover have "pow2 (- 1074) \<le> pow2 0" by (simp add: pow2_le)
  ultimately have "quantum m \<le> 1" by (simp add: pow2_0)
  moreover have "rndMag m - m \<le> quantum m / 2" using rndMag_error [of m] by linarith
  ultimately show ?thesis using \<open>0 \<le> m\<close> by linarith
qed

lemma sqrt_pow2: "sqrt (pow2 (2 * k)) = pow2 k"
proof (rule real_sqrt_unique)
  show "(pow2 k)\<^sup>2 = pow2 (2 * k)"
    using pow2_add [of k k] by (simp add: power2_eq_square)
  show "0 \<le> pow2 k" using pow2_pos [of k] by simp
qed

lemma mk_Finite:
  "0 < rndMag m \<Longrightarrow> rndMag m < pow2 1024 \<Longrightarrow> mk False m = Finite (rndMag m)"
  by (simp add: mk_def Let_def)

lemma mk_zero: "mk negative 0 = signedZero negative"
  using pow2_pos [of 1024] by (simp add: mk_def rndMag_0 Let_def)

lemma isZero_signedZero: "isZero (signedZero negative)"
  by (simp add: isZero_def signedZero_def)

text \<open>The square root of a finite sum of squares is finite and not negative.\<close>

lemma fsqrt_squareSum:
  assumes "squareSum d" and "isFinite d"
  shows "\<exists>y. fsqrt d = Finite y \<and> 0 \<le> y"
proof -
  from assms obtain x where d: "d = Finite x" and x: "0 \<le> x" "x < pow2 1024"
    by (auto simp: squareSum_def isFinite_def split: double.splits)
  have "sqrt x < sqrt (pow2 (2 * 512))" using x by simp
  then have s: "sqrt x < pow2 512" by (simp only: sqrt_pow2)
  have "rndMag (sqrt x) \<le> 2 * sqrt x + 1" using x by (intro rndMag_upper) simp
  also have "\<dots> < 2 * pow2 512 + 1" using s by simp
  also have "\<dots> \<le> pow2 1024"
  proof -
    have "pow2 1 * pow2 512 + pow2 0 \<le> pow2 513 + pow2 513"
      by (simp add: pow2_le flip: pow2_add)
    also have "\<dots> = pow2 1 * pow2 513" using pow2_nat [of 1] by simp
    also have "\<dots> \<le> pow2 1024" by (simp add: pow2_le flip: pow2_add)
    finally show ?thesis using pow2_nat [of 1] pow2_0 by simp
  qed
  finally have lt: "rndMag (sqrt x) < pow2 1024" .
  have ge: "0 \<le> rndMag (sqrt x)" using x by (intro rndMag_nonneg) simp
  have "fsqrt d = mk False (sqrt x)" using d x by (simp add: fsqrt_def)
  with lt ge show ?thesis
    by (auto simp: mk_def Let_def signedZero_def)
qed

lemma fmul_zero_finite: "isZero a \<Longrightarrow> b = Finite y \<Longrightarrow> isZero (fmul a b)"
proof -
  assume a: "isZero a" and b: "b = Finite y"
  then have "fmul a b = mk (isNeg a \<noteq> isNeg b) (\<bar>valof a\<bar> * \<bar>valof b\<bar>)"
    by (auto simp: fmul_def isZero_def isInf_def)
  moreover have "valof a = 0" using a by (auto simp: isZero_def valof_def)
  ultimately show ?thesis by (simp add: mk_zero isZero_signedZero)
qed

lemma sumSquares64_zeros: "\<forall>x \<in> set a. isZero x \<Longrightarrow> sumSquares64 a = Finite 0"
proof -
  have sq: "fmul x x = Finite 0" if "isZero x" for x
    using that by (auto simp: isZero_def fmul_def isInf_def valof_def mk_zero signedZero_def isNeg_def)
  have add: "fadd (Finite 0) (Finite 0) = Finite 0"
    by (simp add: fadd_def isInf_def valof_def isNeg_def signedZero_def)
  have "\<forall>x \<in> set a. isZero x \<Longrightarrow> foldl (\<lambda>norm x. fadd norm (fmul x x)) (Finite 0) a = Finite 0"
    by (induction a) (simp_all add: sq add)
  then show "\<forall>x \<in> set a. isZero x \<Longrightarrow> sumSquares64 a = Finite 0"
    by (simp add: sumSquares64_def)
qed

lemma cosineSimilarity64_zero:
  assumes "length a = length b" and "\<forall>x \<in> set a. isZero x" and "isFinite (sumSquares64 b)"
  shows "cosineSimilarity64 a b = Finite 0"
proof -
  have na: "fsqrt (sumSquares64 a) = Finite 0"
    using sumSquares64_zeros [OF assms(2)] by (simp add: fsqrt_def mk_zero signedZero_def)
  from fsqrt_squareSum [OF squareSum_sumSquares64 assms(3)]
  obtain y where "fsqrt (sumSquares64 b) = Finite y" by blast
  then have "isZero (fmul (fsqrt (sumSquares64 a)) (fsqrt (sumSquares64 b)))"
    using na by (intro fmul_zero_finite) (simp_all add: isZero_def)
  then show ?thesis using assms(1) by (simp add: cosineSimilarity64_eq)
qed

lemma cube_lower: "0 \<le> u \<Longrightarrow> u \<le> 1 \<Longrightarrow> 1 - 3 * u \<le> (1 - u) ^ 3" for u :: real
proof -
  assume "0 \<le> u" "u \<le> 1"
  then have "0 \<le> u * u * (3 - u)" by simp
  then show ?thesis by (simp add: power3_eq_cube algebra_simps)
qed

lemma cube_upper: "0 \<le> u \<Longrightarrow> u \<le> 1 / 16 \<Longrightarrow> (1 + u) ^ 3 \<le> 1 + 4 * u" for u :: real
proof -
  assume u: "0 \<le> u" "u \<le> 1 / 16"
  then have "u * u \<le> u * (1 / 16)" by (intro mult_left_mono) simp_all
  moreover have "u * u * u \<le> u * u * 1" using u by (intro mult_left_mono) simp_all
  ultimately have "3 * (u * u) + u * u * u \<le> u" using u by linarith
  then show ?thesis by (simp add: power3_eq_cube algebra_simps)
qed

lemma tolerance_upper:
  fixes u :: real
  assumes "0 \<le> u" "u \<le> 1 / 16"
  shows "1 + u \<le> (1 + 8 * u) * (1 - u) ^ 3"
proof -
  have sq: "u * u \<le> u * (1 / 16)" using assms by (intro mult_left_mono) simp_all
  have "1 + u \<le> (1 + 8 * u) * (1 - 3 * u)" using sq assms by (simp add: algebra_simps)
  also have "\<dots> \<le> (1 + 8 * u) * (1 - u) ^ 3"
    using assms cube_lower [of u] by (intro mult_left_mono) simp_all
  finally show ?thesis .
qed

lemma tolerance_lower:
  fixes u :: real
  assumes "0 \<le> u" "u \<le> 1 / 16"
  shows "(1 - 8 * u) * (1 + u) ^ 3 \<le> 1 - u"
proof -
  have "(1 - 8 * u) * (1 + u) ^ 3 \<le> (1 - 8 * u) * (1 + 4 * u)"
    using assms cube_upper [of u] by (intro mult_left_mono) simp_all
  also have "\<dots> \<le> 1 - u" using assms by (simp add: algebra_simps)
  finally show ?thesis .
qed

lemma cosineSimilarity64_self:
  assumes s: "sumSquares64 v = Finite x" and lo: "pow2 (- 1021) \<le> x" and hi: "x \<le> pow2 1023"
  shows "\<exists>r. cosineSimilarity64 v v = Finite r \<and> \<bar>r - 1\<bar> \<le> 8 * unitRoundoff"
proof -
  define u where "u = unitRoundoff"
  have u: "0 < u" "u \<le> 1 / 16" using unitRoundoff_bounds by (simp_all add: u_def)
  have x0: "0 < x" using lo pow2_pos [of "- 1021"] by linarith
  \<comment> \<open>the square root\<close>
  define y where "y = sqrt x"
  define r1 where "r1 = rndMag y"
  have y0: "0 < y" using x0 by (simp add: y_def)
  have yy: "y * y = x" using x0 by (simp add: y_def)
  have "sqrt (pow2 (2 * (- 511))) \<le> sqrt x"
    using lo pow2_le [of "- 1022" "- 1021"] by simp
  then have ylo: "pow2 (- 511) \<le> y" by (simp only: sqrt_pow2 y_def)
  have "sqrt x \<le> sqrt (pow2 (2 * 512))"
    using hi pow2_le [of 1023 1024] by simp
  then have yhi: "y \<le> pow2 512" by (simp only: sqrt_pow2 y_def)
  have "pow2 (- 1022) \<le> y" using ylo pow2_le [of "- 1022" "- 511"] by simp
  from rndMag_relative [OF this]
  have r1: "y * (1 - u) \<le> r1" "r1 \<le> y * (1 + u)" by (simp_all add: r1_def u_def)
  have r1pos: "0 < r1"
  proof -
    have "0 < y * (1 - u)" using y0 u by simp
    with r1(1) show ?thesis by linarith
  qed
  have r1lt: "r1 < pow2 1024"
  proof -
    have "y * (1 + u) \<le> pow2 512 * 2" using yhi y0 u by (intro mult_mono) simp_all
    also have "\<dots> = pow2 513" using pow2_add [of 512 1] pow2_nat [of 1] by simp
    also have "\<dots> < pow2 1024" by (simp add: pow2_less)
    finally show ?thesis using r1(2) by linarith
  qed
  have sq: "fsqrt (Finite x) = Finite r1"
    using x0 r1pos r1lt by (simp add: fsqrt_def mk_Finite r1_def y_def)
  \<comment> \<open>the denominator\<close>
  define p where "p = r1 * r1"
  define r2 where "r2 = rndMag p"
  have plo: "x * (1 - u) ^ 2 \<le> p"
  proof -
    have "(y * (1 - u)) * (y * (1 - u)) \<le> r1 * r1"
      using r1(1) r1pos y0 u by (intro mult_mono) simp_all
    then show ?thesis using yy by (simp add: p_def power2_eq_square algebra_simps)
  qed
  have phi: "p \<le> x * (1 + u) ^ 2"
  proof -
    have "r1 * r1 \<le> (y * (1 + u)) * (y * (1 + u))"
      using r1(2) r1pos by (intro mult_mono) simp_all
    then show ?thesis using yy by (simp add: p_def power2_eq_square algebra_simps)
  qed
  have half: "1 / 2 \<le> (1 - u) ^ 2"
  proof -
    have "(15 / 16) ^ 2 \<le> (1 - u) ^ 2" using u by (intro power_mono) simp_all
    then show ?thesis by (simp add: power2_eq_square)
  qed
  have pnormal: "pow2 (- 1022) \<le> p"
  proof -
    have "pow2 (- 1022) = pow2 (- 1021) * (1 / 2)"
      using pow2_add [of "- 1021" "- 1"] pow2_minus [of 1] pow2_nat [of 1] by simp
    also have "\<dots> \<le> x * (1 - u) ^ 2" using lo half pow2_pos [of "- 1021"] by (intro mult_mono) simp_all
    finally show ?thesis using plo by linarith
  qed
  from rndMag_relative [OF this]
  have r2: "p * (1 - u) \<le> r2" "r2 \<le> p * (1 + u)" by (simp_all add: r2_def u_def)
  have r2lo: "x * (1 - u) ^ 3 \<le> r2"
  proof -
    have "x * (1 - u) ^ 2 * (1 - u) \<le> p * (1 - u)" using plo u by (intro mult_right_mono) simp_all
    with r2(1) show ?thesis by (simp add: power3_eq_cube power2_eq_square algebra_simps)
  qed
  have r2hi: "r2 \<le> x * (1 + u) ^ 3"
  proof -
    have "p * (1 + u) \<le> x * (1 + u) ^ 2 * (1 + u)" using phi u by (intro mult_right_mono) simp_all
    with r2(2) show ?thesis by (simp add: power3_eq_cube power2_eq_square algebra_simps)
  qed
  have cubepos: "0 < (1 - u) ^ 3" using u by simp
  have r2pos: "0 < r2"
  proof -
    have "0 < x * (1 - u) ^ 3" using x0 cubepos by simp
    with r2lo show ?thesis by linarith
  qed
  have r2lt: "r2 < pow2 1024"
  proof -
    have "(1 + u) ^ 3 \<le> 1 + 4 * u" using u cube_upper [of u] by simp
    then have "(1 + u) ^ 3 < 2" using u by linarith
    then have "x * (1 + u) ^ 3 < x * 2" using x0 by simp
    also have "\<dots> \<le> pow2 1023 * 2" using hi by simp
    also have "\<dots> = pow2 1024" using pow2_add [of 1023 1] pow2_nat [of 1] by simp
    finally show ?thesis using r2hi by linarith
  qed
  have den: "fmul (Finite r1) (Finite r1) = Finite r2"
    using r1pos r2pos r2lt
    by (simp add: fmul_def isInf_def valof_def mk_Finite r2_def p_def)
  \<comment> \<open>the quotient\<close>
  define t where "t = x / r2"
  define r3 where "r3 = rndMag t"
  have tpos: "0 < t" using x0 r2pos by (simp add: t_def)
  have thi: "t * (1 - u) ^ 3 \<le> 1"
  proof -
    have "t * (x * (1 - u) ^ 3) \<le> t * r2" using r2lo tpos by (intro mult_left_mono) simp_all
    also have "t * r2 = x" using r2pos by (simp add: t_def)
    finally have "x * (t * (1 - u) ^ 3) \<le> x * 1" by (simp add: algebra_simps)
    then show ?thesis using x0 by (simp only: mult_le_cancel_left_pos)
  qed
  have tlo: "1 \<le> t * (1 + u) ^ 3"
  proof -
    have "t * r2 \<le> t * (x * (1 + u) ^ 3)" using r2hi tpos by (intro mult_left_mono) simp_all
    moreover have "t * r2 = x" using r2pos by (simp add: t_def)
    ultimately have "x * 1 \<le> x * (t * (1 + u) ^ 3)" by (simp add: algebra_simps)
    then show ?thesis using x0 by (simp only: mult_le_cancel_left_pos)
  qed
  have tnormal: "pow2 (- 1022) \<le> t"
  proof -
    have "(1 + u) ^ 3 \<le> 2" using u cube_upper [of u] by simp
    then have "t * (1 + u) ^ 3 \<le> t * 2" using tpos by (intro mult_left_mono) simp_all
    with tlo have "1 / 2 \<le> t" by simp
    moreover have "pow2 (- 1022) \<le> pow2 (- 1)" by (simp add: pow2_le)
    moreover have "pow2 (- 1) = 1 / 2" using pow2_minus [of 1] pow2_nat [of 1] by simp
    ultimately show ?thesis by linarith
  qed
  from rndMag_relative [OF this]
  have r3: "t * (1 - u) \<le> r3" "r3 \<le> t * (1 + u)" by (simp_all add: r3_def u_def)
  have up: "r3 \<le> 1 + 8 * u"
  proof -
    have "r3 * (1 - u) ^ 3 \<le> t * (1 + u) * (1 - u) ^ 3"
      using r3(2) cubepos by (intro mult_right_mono) simp_all
    also have "\<dots> = (t * (1 - u) ^ 3) * (1 + u)" by simp
    also have "\<dots> \<le> 1 * (1 + u)" using thi u by (intro mult_right_mono) simp_all
    also have "\<dots> \<le> (1 + 8 * u) * (1 - u) ^ 3" using tolerance_upper [of u] u by simp
    finally show ?thesis using cubepos by (simp only: mult_le_cancel_right_pos)
  qed
  have cubepos': "0 < (1 + u) ^ 3" using u by simp
  have down: "1 - 8 * u \<le> r3"
  proof -
    have "(1 - 8 * u) * (1 + u) ^ 3 \<le> 1 * (1 - u)" using tolerance_lower [of u] u by simp
    also have "\<dots> \<le> (t * (1 + u) ^ 3) * (1 - u)" using tlo u by (intro mult_right_mono) simp_all
    also have "\<dots> = t * (1 - u) * (1 + u) ^ 3" by simp
    also have "\<dots> \<le> r3 * (1 + u) ^ 3" using r3(1) cubepos' by (intro mult_right_mono) simp_all
    finally show ?thesis using cubepos' by (simp only: mult_le_cancel_right_pos)
  qed
  have r3pos: "0 < r3" using down u by linarith
  have r3lt: "r3 < pow2 1024"
  proof -
    have "r3 \<le> 2" using up u by linarith
    also have "(2 :: real) = pow2 1" using pow2_nat [of 1] by simp
    also have "\<dots> < pow2 1024" by (simp add: pow2_less)
    finally show ?thesis .
  qed
  have quot: "fdiv (Finite x) (Finite r2) = Finite r3"
    using x0 r2pos r3pos r3lt
    by (simp add: fdiv_def isInf_def isZero_def isNeg_def valof_def mk_Finite r3_def t_def)
  have "cosineSimilarity64 v v = Finite r3"
    using cosineLoop64_self [of v "Finite 0"] r2pos
    by (simp add: cosineSimilarity64_def Let_def s [unfolded sumSquares64_def] sq den quot
        isZero_def)
  moreover have "\<bar>r3 - 1\<bar> \<le> 8 * unitRoundoff" using up down by (simp add: abs_le_iff u_def)
  ultimately show ?thesis by blast
qed

lemma rndMag_underflow:
  assumes "0 \<le> m" and "m < pow2 (- 1075)"
  shows "rndMag m = 0"
proof -
  have "pow2 (- 1075) < pow2 (- 1022)" by (simp add: pow2_less)
  with assms have q: "quantum m = pow2 (- 1074)" by (simp add: quantum_def)
  have "pow2 (- 1075) = pow2 (- 1074) * (1 / 2)"
    using pow2_add [of "- 1074" "- 1"] pow2_minus [of 1] pow2_nat [of 1] by simp
  with assms have small: "m / pow2 (- 1074) < 1 / 2"
    using pow2_pos [of "- 1074"] by (simp add: field_simps)
  have nonneg: "0 \<le> m / pow2 (- 1074)" using assms pow2_pos [of "- 1074"] by simp
  have "m / pow2 (- 1074) < 1" using small by linarith
  with nonneg have "\<lfloor>m / pow2 (- 1074)\<rfloor> = 0" by (simp add: floor_eq_iff)
  with small have "roundEven (m / pow2 (- 1074)) = 0"
    by (simp add: roundEven_def Let_def)
  with q show ?thesis by (simp add: rndMag_def)
qed

lemma rndMag_pow2:
  assumes "- 1022 \<le> k"
  shows "rndMag (pow2 k) = pow2 k"
proof -
  have "\<not> pow2 k < pow2 (- 1022)" using assms by (simp add: pow2_less)
  moreover have "\<lfloor>log 2 (pow2 k)\<rfloor> = k" by (simp add: pow2_def)
  ultimately have q: "quantum (pow2 k) = pow2 (k - 52)" by (simp add: quantum_def)
  have "pow2 k / pow2 (k - 52) = pow2 52"
    using pow2_add [of "k - 52" 52] pow2_pos [of "k - 52"] by (simp add: field_simps)
  also have "\<dots> = of_int (2 ^ 52)" using pow2_nat [of 52] by simp
  finally have "roundEven (pow2 k / pow2 (k - 52)) = 2 ^ 52" by (simp only: roundEven_int)
  then have "rndMag (pow2 k) = of_int (2 ^ 52) * pow2 (k - 52)" by (simp add: rndMag_def q)
  also have "\<dots> = pow2 52 * pow2 (k - 52)" using pow2_nat [of 52] by simp
  also have "\<dots> = pow2 k" by (simp flip: pow2_add)
  finally show ?thesis .
qed

lemma mk_pow2: "- 1022 \<le> k \<Longrightarrow> k < 1024 \<Longrightarrow> mk False (pow2 k) = Finite (pow2 k)"
  using pow2_pos [of k] by (simp add: mk_Finite rndMag_pow2 pow2_less)

lemma mk_overflow: "1024 \<le> k \<Longrightarrow> mk False (pow2 k) = PosInf"
  by (simp add: mk_def Let_def rndMag_pow2 pow2_le signedInfinity_def)

lemma mk_underflow: "k < - 1075 \<Longrightarrow> mk False (pow2 k) = Finite 0"
proof -
  assume "k < - 1075"
  then have "rndMag (pow2 k) = 0"
    using pow2_pos [of k] by (intro rndMag_underflow) (simp_all add: pow2_less)
  then show ?thesis using pow2_pos [of 1024] by (simp add: mk_def Let_def signedZero_def)
qed

lemma fmul_pow2: "fmul (Finite (pow2 j)) (Finite (pow2 k)) = mk False (pow2 (j + k))"
  using pow2_pos [of j] pow2_pos [of k]
  by (simp add: fmul_def isInf_def isNeg_def valof_def pow2_add not_less [symmetric] less_imp_le)

lemma fadd_zero_zero: "fadd (Finite 0) (Finite 0) = Finite 0"
  by (simp add: fadd_def isInf_def valof_def isNeg_def signedZero_def)

lemma fadd_zero_pow2: "- 1022 \<le> k \<Longrightarrow> k < 1024 \<Longrightarrow> fadd (Finite 0) (Finite (pow2 k)) = Finite (pow2 k)"
  using pow2_pos [of k] by (simp add: fadd_def isInf_def valof_def mk_pow2)

lemma fmul_zero_zero: "fmul (Finite 0) (Finite 0) = Finite 0"
  by (simp add: fmul_def isInf_def valof_def isNeg_def mk_zero signedZero_def)

lemma fsqrt_zero: "fsqrt (Finite 0) = Finite 0"
  by (simp add: fsqrt_def mk_zero signedZero_def)

lemma underflow_example:
  "cosineSimilarity64 [Finite (pow2 (- 600))] [Finite (pow2 (- 600))] = Finite 0"
  by (simp add: cosineSimilarity64_def fmul_pow2 mk_underflow fadd_zero_zero fsqrt_zero
      fmul_zero_zero isZero_def)

lemma fadd_PosInf: "fadd (Finite x) PosInf = PosInf" "fadd PosInf (Finite x) = PosInf"
  by (simp_all add: fadd_def isInf_def)

lemma fsqrt_PosInf: "fsqrt PosInf = PosInf"
  by (simp add: fsqrt_def)

lemma fmul_PosInf: "fmul PosInf PosInf = PosInf" "fmul (Finite 0) PosInf = NaN"
  by (simp_all add: fmul_def isInf_def isZero_def isNeg_def signedInfinity_def)

lemma fdiv_NaN: "fdiv PosInf PosInf = NaN" "fdiv a NaN = NaN"
  by (simp_all add: fdiv_def isInf_def)

lemma overflow_example:
  "cosineSimilarity64 [Finite (pow2 600)] [Finite (pow2 600)] = NaN"
  by (simp add: cosineSimilarity64_def fmul_pow2 mk_overflow fadd_PosInf fsqrt_PosInf fmul_PosInf
      fdiv_NaN isZero_def)

lemma zero_norm_example:
  "cosineSimilarity64 [Finite 0, Finite 0] [Finite (pow2 600), Finite 0] = NaN"
proof -
  have "fmul (Finite 0) (Finite (pow2 600)) = Finite 0"
    using pow2_pos [of 600]
    by (simp add: fmul_def isInf_def valof_def isNeg_def mk_zero signedZero_def not_less [symmetric] less_imp_le)
  then show ?thesis
    by (simp add: cosineSimilarity64_def fmul_pow2 mk_overflow fmul_zero_zero fadd_zero_zero
        fsqrt_zero fadd_PosInf fsqrt_PosInf fmul_PosInf fdiv_NaN isZero_def)
qed

lemma sumSquares64_one: "sumSquares64 [Finite 1] = Finite 1"
  using fmul_pow2 [of 0 0] mk_pow2 [of 0] fadd_zero_pow2 [of 0]
  by (simp add: sumSquares64_def pow2_0)

lemma sumSquares64_one_zero: "sumSquares64 [Finite 1, Finite 0] = Finite 1"
  using fmul_pow2 [of 0 0] mk_pow2 [of 0] fadd_zero_pow2 [of 0]
  by (simp add: sumSquares64_def pow2_0 fmul_zero_zero fadd_def isInf_def valof_def)

lemma sumSquares64_two: "sumSquares64 [Finite 2, Finite 2] = Finite 8"
proof -
  have two: "(2 :: real) = pow2 1" and four: "(4 :: real) = pow2 2" and eight: "(8 :: real) = pow2 3"
    using pow2_nat [of 1] pow2_nat [of 2] pow2_nat [of 3] by simp_all
  have sq: "fmul (Finite 2) (Finite 2) = Finite 4"
    unfolding two four using fmul_pow2 [of 1 1] mk_pow2 [of 2] by simp
  have "fadd (Finite 4) (Finite 4) = mk False 8"
    by (simp add: fadd_def isInf_def valof_def)
  also have "\<dots> = Finite 8" unfolding eight by (rule mk_pow2) simp_all
  finally show ?thesis
    using fadd_zero_pow2 [of 2] by (simp add: sumSquares64_def sq four [symmetric])
qed

lemma representable_pow2:
  assumes "- 1074 \<le> k" and "k \<le> 1023"
  shows "representable (pow2 k)"
proof (cases "k \<le> 971")
  case True
  have "\<bar>1 :: int\<bar> < 2 ^ 53" by simp
  moreover have "pow2 k = of_int 1 * pow2 k" by simp
  ultimately show ?thesis unfolding representable_def using assms True by blast
next
  case False
  have "\<bar>2 ^ 52 :: int\<bar> < 2 ^ 53" by simp
  moreover have "pow2 k = of_int (2 ^ 52) * pow2 (k - 52)"
    using pow2_add [of 52 "k - 52"] pow2_nat [of 52] by simp
  moreover have "- 1074 \<le> k - 52" "k - 52 \<le> 971" using assms False by simp_all
  ultimately show ?thesis unfolding representable_def by blast
qed

lemma cosineSimilarity64_zero_norm:
  assumes "length a = length b" and "isZero (sumSquares64 a)" and "isFinite (sumSquares64 b)"
  shows "cosineSimilarity64 a b = Finite 0"
proof -
  have "sumSquares64 a = Finite 0"
    using assms(2) squareSum_sumSquares64 [of a] by (auto simp: isZero_def squareSum_def)
  then have na: "fsqrt (sumSquares64 a) = Finite 0" by (simp add: fsqrt_zero)
  from fsqrt_squareSum [OF squareSum_sumSquares64 assms(3)]
  obtain y where "fsqrt (sumSquares64 b) = Finite y" by blast
  then have "isZero (fmul (fsqrt (sumSquares64 a)) (fsqrt (sumSquares64 b)))"
    using na by (intro fmul_zero_finite) (simp_all add: isZero_def)
  then show ?thesis using assms(1) by (simp add: cosineSimilarity64_eq)
qed

lemma tolerance_eq: "8 * unitRoundoff = 1 / 2 ^ 50"
  by (simp add: unitRoundoff_def)

text \<open>
  C7 (amended). On doubles \<open>cosineSimilarity\<close> gives the same value for \<open>(a, b)\<close> and
  \<open>(b, a)\<close>, NaN included; it returns 0 whenever the two arguments differ in length, and
  whenever the sum of squares it computes for one argument is 0 (as for every all-zero
  vector) while the one it computes for the other is finite; and \<open>cosineSimilarity(v, v)\<close>
  is within \<open>2^-50\<close> of 1 for every \<open>v\<close> whose computed sum of squares lies between
  \<open>2^-1021\<close> and \<open>2^1023\<close>, that is when the squares neither underflow nor overflow.
\<close>

theorem cosineSimilarity64_properties:
  "cosineSimilarity64 a b = cosineSimilarity64 b a
   \<and> (length a \<noteq> length b \<longrightarrow> cosineSimilarity64 a b = Finite 0)
   \<and> (length a = length b
        \<and> (isZero (sumSquares64 a) \<and> isFinite (sumSquares64 b)
           \<or> isZero (sumSquares64 b) \<and> isFinite (sumSquares64 a))
        \<longrightarrow> cosineSimilarity64 a b = Finite 0)
   \<and> ((\<forall>x \<in> set a. isZero x) \<longrightarrow> sumSquares64 a = Finite 0)
   \<and> (sumSquares64 v = Finite x \<and> pow2 (- 1021) \<le> x \<and> x \<le> pow2 1023 \<longrightarrow>
        (\<exists>r. cosineSimilarity64 v v = Finite r \<and> \<bar>r - 1\<bar> \<le> 1 / 2 ^ 50))"
proof -
  have mismatch: "length a \<noteq> length b \<longrightarrow> cosineSimilarity64 a b = Finite 0"
    by (simp add: cosineSimilarity64_def)
  have zero: "cosineSimilarity64 a b = Finite 0"
    if "length a = length b"
      and "isZero (sumSquares64 a) \<and> isFinite (sumSquares64 b)
        \<or> isZero (sumSquares64 b) \<and> isFinite (sumSquares64 a)"
  proof -
    from that(2) show ?thesis
    proof
      assume "isZero (sumSquares64 a) \<and> isFinite (sumSquares64 b)"
      with that(1) show ?thesis by (simp add: cosineSimilarity64_zero_norm)
    next
      assume "isZero (sumSquares64 b) \<and> isFinite (sumSquares64 a)"
      with that(1) have "cosineSimilarity64 b a = Finite 0"
        by (simp add: cosineSimilarity64_zero_norm)
      then show ?thesis by (simp add: cosineSimilarity64_sym [of a b])
    qed
  qed
  have self: "\<exists>r. cosineSimilarity64 v v = Finite r \<and> \<bar>r - 1\<bar> \<le> 1 / 2 ^ 50"
    if "sumSquares64 v = Finite x" "pow2 (- 1021) \<le> x" "x \<le> pow2 1023"
    using cosineSimilarity64_self [OF that] by (simp only: tolerance_eq)
  from cosineSimilarity64_sym [of a b] mismatch zero sumSquares64_zeros [of a] self
  show ?thesis by blast
qed

theorem cosineSimilarity64_properties_witness:
  "cosineSimilarity64 [Finite 2, Finite 2] [Finite 1, Finite 0] =
     cosineSimilarity64 [Finite 1, Finite 0] [Finite 2, Finite 2]
   \<and> length [Finite 1] \<noteq> length ([] :: double list)
   \<and> cosineSimilarity64 [Finite 1] [] = Finite 0
   \<and> isZero (sumSquares64 [Finite 0, NegZero])
   \<and> isFinite (sumSquares64 [Finite 1, Finite 0])
   \<and> cosineSimilarity64 [Finite 0, NegZero] [Finite 1, Finite 0] = Finite 0
   \<and> sumSquares64 [Finite 2, Finite 2] = Finite 8
   \<and> pow2 (- 1021) \<le> 8 \<and> 8 \<le> pow2 1023
   \<and> (\<exists>r. cosineSimilarity64 [Finite 2, Finite 2] [Finite 2, Finite 2] = Finite r
          \<and> \<bar>r - 1\<bar> \<le> 1 / 2 ^ 50)"
proof -
  have eight: "(8 :: real) = pow2 3" using pow2_nat [of 3] by simp
  have range: "pow2 (- 1021) \<le> 8" "8 \<le> pow2 1023"
    unfolding eight by (simp_all add: pow2_le)
  have sym: "cosineSimilarity64 [Finite 2, Finite 2] [Finite 1, Finite 0] =
      cosineSimilarity64 [Finite 1, Finite 0] [Finite 2, Finite 2]"
    using cosineSimilarity64_properties
      [of "[Finite 2, Finite 2]" "[Finite 1, Finite 0]" "[Finite 2, Finite 2]" 8]
    by blast
  have self: "\<exists>r. cosineSimilarity64 [Finite 2, Finite 2] [Finite 2, Finite 2] = Finite r
      \<and> \<bar>r - 1\<bar> \<le> 1 / 2 ^ 50"
    using cosineSimilarity64_properties
      [of "[Finite 2, Finite 2]" "[Finite 1, Finite 0]" "[Finite 2, Finite 2]" 8]
      sumSquares64_two range
    by blast
  have len: "length [Finite 1] \<noteq> length ([] :: double list)" by simp
  have mismatch: "cosineSimilarity64 [Finite 1] [] = Finite 0"
    using cosineSimilarity64_properties [of "[Finite 1]" "[]" "[]" 0] len by blast
  have zeros: "\<forall>x \<in> set [Finite 0, NegZero]. isZero x" by (simp add: isZero_def)
  have "sumSquares64 [Finite 0, NegZero] = Finite 0"
    using cosineSimilarity64_properties [of "[Finite 0, NegZero]" "[Finite 1, Finite 0]" "[]" 0]
      zeros
    by blast
  then have z: "isZero (sumSquares64 [Finite 0, NegZero])" by (simp add: isZero_def)
  have f: "isFinite (sumSquares64 [Finite 1, Finite 0])"
    by (simp add: sumSquares64_one_zero isFinite_def)
  have same: "length [Finite 0, NegZero] = length [Finite 1, Finite 0]" by simp
  have zero: "cosineSimilarity64 [Finite 0, NegZero] [Finite 1, Finite 0] = Finite 0"
    using cosineSimilarity64_properties [of "[Finite 0, NegZero]" "[Finite 1, Finite 0]" "[]" 0]
      same z f
    by blast
  from sym len mismatch z f zero sumSquares64_two range self show ?thesis by blast
qed

text \<open>
  C7 as claimed fails on doubles. The vector \<open>[2^-600]\<close> is not zero, its square
  underflows to 0, and its similarity with itself is 0, not 1. The square of \<open>2^600\<close>
  overflows, and the similarity of \<open>[2^600]\<close> with itself is NaN. The all-zero vector
  \<open>[0, 0]\<close> has norm 0, and its similarity with \<open>[2^600, 0]\<close> is NaN, not 0.
\<close>

theorem cosineSimilarity64_underflow_overflow:
  "representable (pow2 (- 600)) \<and> representable (pow2 600)
   \<and> Finite (pow2 (- 600)) \<noteq> Finite 0
   \<and> cosineSimilarity64 [Finite (pow2 (- 600))] [Finite (pow2 (- 600))] = Finite 0
   \<and> cosineSimilarity64 [Finite (pow2 600)] [Finite (pow2 600)] = NaN
   \<and> sumSquares64 [Finite 0, Finite 0] = Finite 0
   \<and> cosineSimilarity64 [Finite 0, Finite 0] [Finite (pow2 600), Finite 0] = NaN"
  using pow2_pos [of "- 600"] representable_pow2 [of "- 600"] representable_pow2 [of 600]
    sumSquares64_zeros [of "[Finite 0, Finite 0]"]
  by (simp add: underflow_example overflow_example zero_norm_example isZero_def)

section \<open>\<open>getEmbedding\<close>, \<open>semanticSearch\<close> and the missing credential\<close>

lemma getEmbedding_no_key: "apiKey vs = [] \<Longrightarrow> getEmbedding api vs s = Inl ApiKeyNotConfigured"
  by (simp add: getEmbedding_def)

lemma getEmbedding_with_key:
  "apiKey vs \<noteq> [] \<Longrightarrow>
   getEmbedding api vs s =
     Inr (case remoteEmbedding api vs (cleanText s) of
            Inr e \<Rightarrow> e
          | Inl err \<Rightarrow> getFallbackEmbedding (cleanText s))"
  by (simp add: getEmbedding_def Let_def split: sum.splits)

lemma getEmbedding_remote_failure:
  "apiKey vs \<noteq> [] \<Longrightarrow> remoteEmbedding api vs (cleanText s) = Inl err \<Longrightarrow>
   getEmbedding api vs s = Inr (getFallbackEmbedding (cleanText s))"
  by (simp add: getEmbedding_with_key)

text \<open>
  C1. The claim says that \<open>embed\<close> never propagates an error, and returns the fallback
  embedding when no credential is configured. The code throws in that case, before its
  \<open>try\<close> block: with an empty API key, \<open>getEmbedding\<close> of the text \<open>hi\<close> is the error
  "API key not configured", not the fallback embedding. (With a key, a failed remote
  call does give the fallback embedding: \<open>getEmbedding_remote_failure\<close>.)
\<close>

theorem getEmbedding_missing_key_throws:
  "getEmbedding unreachableApi \<lparr>vectors = [], apiKey = []\<rparr> [0x68, 0x69] = Inl ApiKeyNotConfigured
   \<and> getEmbedding unreachableApi \<lparr>vectors = [], apiKey = []\<rparr> [0x68, 0x69]
       \<noteq> Inr (getFallbackEmbedding (cleanText [0x68, 0x69]))"
  by (simp add: getEmbedding_def)

text \<open>
  The same missing key empties indexing: every chunk's embedding error is caught and the
  chunk is left out, so \<open>addMeetingSegments\<close> stores nothing and the vector count stays
  as it was.
\<close>

lemma addChunk_no_key: "apiKey vs = [] \<Longrightarrow> addChunk api mid segment n vs ichunk = vs"
  by (cases ichunk) (simp add: addChunk_def getEmbedding_no_key)

lemma addSegment_no_key: "apiKey vs = [] \<Longrightarrow> addSegment api mid vs segment = vs"
proof -
  assume key: "apiKey vs = []"
  have "foldl (addChunk api mid segment n) vs ichunks = vs" for n ichunks
    by (induction ichunks) (simp_all add: addChunk_no_key key)
  then show ?thesis by (simp add: addSegment_def Let_def)
qed

lemma addMeetingSegments_no_key:
  "apiKey vs = [] \<Longrightarrow> addMeetingSegments api vs mid segments = vs"
  unfolding addMeetingSegments_def
  by (induction segments) (simp_all add: addSegment_no_key)

lemma getVectorCount_no_key:
  "apiKey vs = [] \<Longrightarrow> vectors vs = [] \<Longrightarrow>
   getVectorCount (addMeetingSegments api vs mid segments) = 0"
  by (simp add: addMeetingSegments_no_key getVectorCount_def)

lemma semanticSearch_no_key_Nil: "apiKey vs = [] \<Longrightarrow> semanticSearch api vs question limit = []"
  by (simp add: semanticSearch_def getEmbedding_no_key)

lemma semanticSearch_empty_store: "vectors vs = [] \<Longrightarrow> semanticSearch api vs question limit = []"
  by (simp add: semanticSearch_def)

lemma jsSort_Nil: "jsSort cmp [] = []"
  by (simp add: jsSort_def)

lemma deduplicateResults_Nil: "deduplicateResults [] = []"
  by (simp add: deduplicateResults_def jsSort_Nil)

lemma boostCurrentMeeting_Nil: "boostCurrentMeeting [] m = []"
  by (simp add: boostCurrentMeeting_def jsSort_Nil)

lemma retrieveContext_search_Nil:
  "semanticSearch api vs question (retrievalLimit (config rs)) = [] \<Longrightarrow>
   retrieveContext api vs rs question cmid = []"
  by (simp add: retrieveContext_def deduplicateResults_Nil boostCurrentMeeting_Nil
      split: option.splits)

lemma query_no_evidence:
  "retrieveContext api vs rs question cmid = [] \<Longrightarrow>
   query api llm vs rs question cmid =
     \<lparr>answer = noEvidenceAnswer, sources = [], usedContext = [], confidence = 0\<rparr>"
  by (simp add: query_def)

text \<open>
  C2. With no API credential configured in the vector service, \<open>semanticSearch\<close> returns
  the empty list for every question, limit and store, and \<open>query\<close> returns the fixed
  no-evidence result with confidence 0.
\<close>

theorem no_credential_no_evidence:
  "apiKey vs = [] \<Longrightarrow>
   semanticSearch api vs question limit = []
   \<and> query api llm vs rs question cmid =
       \<lparr>answer = noEvidenceAnswer, sources = [], usedContext = [], confidence = 0\<rparr>"
  by (simp add: semanticSearch_no_key_Nil retrieveContext_search_Nil query_no_evidence)

theorem no_credential_no_evidence_witness:
  "apiKey \<lparr>vectors = [exampleVector meetingOne [1, 0]], apiKey = []\<rparr> = []
   \<and> vectors \<lparr>vectors = [exampleVector meetingOne [1, 0]], apiKey = []\<rparr> \<noteq> []
   \<and> semanticSearch constantApi \<lparr>vectors = [exampleVector meetingOne [1, 0]], apiKey = []\<rparr>
        [0x68, 0x69] 5 = []
   \<and> query constantApi unreachableLlm \<lparr>vectors = [exampleVector meetingOne [1, 0]], apiKey = []\<rparr>
        defaultService [0x68, 0x69] None =
       \<lparr>answer = noEvidenceAnswer, sources = [], usedContext = [], confidence = 0\<rparr>"
  using no_credential_no_evidence
    [of "\<lparr>vectors = [exampleVector meetingOne [1, 0]], apiKey = []\<rparr>" constantApi
        "[0x68, 0x69]" 5 unreachableLlm defaultService None]
  by simp

text \<open>
  C9. Whenever the retrieved evidence is empty, and in particular whenever the store is
  empty, \<open>query\<close> returns the fixed "no relevant content found" answer with confidence 0,
  no sources and an empty used context. \<open>query\<close> is a total function of the model: no
  path of it raises.
\<close>

theorem empty_evidence_answer:
  "retrieveContext api vs rs question cmid = [] \<or> vectors vs = [] \<longrightarrow>
   query api llm vs rs question cmid =
     \<lparr>answer = noEvidenceAnswer, sources = [], usedContext = [], confidence = 0\<rparr>"
  using query_no_evidence retrieveContext_search_Nil semanticSearch_empty_store by metis

theorem empty_evidence_answer_witness:
  "vectors \<lparr>vectors = [], apiKey = [0x6B]\<rparr> = []
   \<and> query constantApi unreachableLlm \<lparr>vectors = [], apiKey = [0x6B]\<rparr> defaultService
        [0x68, 0x69] (Some [0x6D, 0x31]) =
       \<lparr>answer = noEvidenceAnswer, sources = [], usedContext = [], confidence = 0\<rparr>"
  using empty_evidence_answer
    [of constantApi "\<lparr>vectors = [], apiKey = [0x6B]\<rparr>" defaultService "[0x68, 0x69]"
        "Some [0x6D, 0x31]" unreachableLlm]
  by simp

section \<open>\<open>updateConfig\<close>\<close>

text \<open>
  C10. After \<open>updateConfig\<close>, every configuration field named in the partial object has
  the new value, and every field not named in it has its prior value; the API key of
  the service is untouched.
\<close>

theorem updateConfig_merges:
  "(maxContextLengthOpt p = Some a \<longrightarrow> maxContextLength (config (updateConfig rs p)) = a)
   \<and> (maxContextLengthOpt p = None \<longrightarrow>
        maxContextLength (config (updateConfig rs p)) = maxContextLength (config rs))
   \<and> (temperatureOpt p = Some b \<longrightarrow> temperature (config (updateConfig rs p)) = b)
   \<and> (temperatureOpt p = None \<longrightarrow>
        temperature (config (updateConfig rs p)) = temperature (config rs))
   \<and> (maxTokensOpt p = Some c \<longrightarrow> maxTokens (config (updateConfig rs p)) = c)
   \<and> (maxTokensOpt p = None \<longrightarrow> maxTokens (config (updateConfig rs p)) = maxTokens (config rs))
   \<and> (retrievalLimitOpt p = Some d \<longrightarrow> retrievalLimit (config (updateConfig rs p)) = d)
   \<and> (retrievalLimitOpt p = None \<longrightarrow>
        retrievalLimit (config (updateConfig rs p)) = retrievalLimit (config rs))
   \<and> (similarityThresholdOpt p = Some e \<longrightarrow>
        similarityThreshold (config (updateConfig rs p)) = e)
   \<and> (similarityThresholdOpt p = None \<longrightarrow>
        similarityThreshold (config (updateConfig rs p)) = similarityThreshold (config rs))
   \<and> llmApiKey (updateConfig rs p) = llmApiKey rs"
  by (simp add: updateConfig_def spreadConfig_def)

theorem updateConfig_merges_witness:
  "config (updateConfig defaultService
     \<lparr>maxContextLengthOpt = None, temperatureOpt = Some 0.2, maxTokensOpt = None,
      retrievalLimitOpt = Some 3, similarityThresholdOpt = None\<rparr>) =
   \<lparr>maxContextLength = 4000, temperature = 0.2, maxTokens = 800, retrievalLimit = 3,
    similarityThreshold = 0.75\<rparr>"
  using updateConfig_merges
    [of "\<lparr>maxContextLengthOpt = None, temperatureOpt = Some 0.2, maxTokensOpt = None,
          retrievalLimitOpt = Some 3, similarityThresholdOpt = None\<rparr>"
        0 defaultService "0.2" 0 3 0]
  by (simp add: defaultService_def defaultConfig_def)

section \<open>\<open>calculateConfidence\<close>\<close>

lemma startsWith_iff: "startsWith s p \<longleftrightarrow> (\<exists>post. s = p @ post)"
  by (induction s p rule: startsWith.induct) auto

lemma jsIncludes_iff: "jsIncludes s p \<longleftrightarrow> (\<exists>pre post. s = pre @ p @ post)"
proof (induction s)
  case Nil
  then show ?case by auto
next
  case (Cons c cs)
  show ?case
  proof
    assume "jsIncludes (c # cs) p"
    then consider "startsWith (c # cs) p" | "jsIncludes cs p" by auto
    then show "\<exists>pre post. c # cs = pre @ p @ post"
    proof cases
      case 1
      then obtain post where "c # cs = p @ post" by (auto simp: startsWith_iff)
      then have "c # cs = [] @ p @ post" by simp
      then show ?thesis by blast
    next
      case 2
      with Cons obtain pre post where "cs = pre @ p @ post" by blast
      then have "c # cs = (c # pre) @ p @ post" by simp
      then show ?thesis by blast
    qed
  next
    assume "\<exists>pre post. c # cs = pre @ p @ post"
    then obtain pre post where eq: "c # cs = pre @ p @ post" by blast
    show "jsIncludes (c # cs) p"
    proof (cases pre)
      case Nil
      with eq have "startsWith (c # cs) p" by (auto simp: startsWith_iff)
      then show ?thesis by simp
    next
      case (Cons d pre')
      with eq have "cs = pre' @ p @ post" by simp
      with Cons.IH have "jsIncludes cs p" by blast
      then show ?thesis by simp
    qed
  qed
qed

lemma containsUncertainty_iff: "containsUncertainty ans \<longleftrightarrow> hedges ans"
  by (simp add: containsUncertainty_def hedges_def list_ex_iff jsIncludes_iff)

lemma foldl_similarity_sum:
  "foldl (\<lambda>sum r. sum + similarity r) acc results = acc + (\<Sum>r\<leftarrow>results. similarity r)"
  by (induction results arbitrary: acc) simp_all

text \<open>
  C6. For a non-empty evidence list, \<open>calculateConfidence\<close> is the specification's
  formula: the average similarity, times \<open>min(len/3, 1)\<close>, times 0.8 for a hedging
  answer and 1 otherwise, clamped from above by 1. There is no clamp from below: one
  evidence item of similarity -0.6 gives the score -1/5.
\<close>

theorem calculateConfidence_formula:
  "results \<noteq> [] \<Longrightarrow>
   calculateConfidence results ans = confidenceScore results ans
   \<and> calculateConfidence results ans \<le> 1"
  by (simp add: calculateConfidence_def confidenceScore_def Let_def foldl_similarity_sum
      containsUncertainty_iff)

theorem calculateConfidence_formula_witness:
  "[exampleResult 0.9, exampleResult 0.8] \<noteq> []
   \<and> confidenceScore [exampleResult 0.9, exampleResult 0.8] [0x61, 0x53EF, 0x80FD] = 34 / 75
   \<and> confidenceScore [exampleResult (- 0.6)] [0x61] = - 1 / 5"
  using calculateConfidence_formula
      [of "[exampleResult 0.9, exampleResult 0.8]" "[0x61, 0x53EF, 0x80FD]"]
    calculateConfidence_formula [of "[exampleResult (- 0.6)]" "[0x61]"]
  by (simp add: calculateConfidence_def exampleResult_def containsUncertainty_def
      uncertaintyPhrases_def)

section \<open>Sorting by similarity\<close>

lemma jsSort_snoc: "jsSort cmp (xs @ [x]) = insertSorted cmp x (jsSort cmp xs)"
  by (simp add: jsSort_def)

lemma mset_insertSorted: "mset (insertSorted cmp x ys) = add_mset x (mset ys)"
  by (induction ys) auto

lemma mset_jsSort: "mset (jsSort cmp xs) = mset xs"
  by (induction xs rule: rev_induct) (simp_all add: jsSort_snoc jsSort_Nil mset_insertSorted)

lemma set_jsSort: "set (jsSort cmp xs) = set xs"
  by (metis mset_jsSort set_mset_mset)

lemma length_jsSort: "length (jsSort cmp xs) = length xs"
  by (metis mset_jsSort size_mset)

lemma set_insertSorted: "set (insertSorted cmp x ys) = insert x (set ys)"
  by (induction ys) auto

lemma descending_insertSorted:
  "descending ys \<Longrightarrow> descending (insertSorted bySimilarityDesc x ys)"
  unfolding descending_def
proof (induction ys)
  case Nil
  then show ?case by simp
next
  case (Cons y ys)
  then show ?case
    by (auto simp: bySimilarityDesc_def set_insertSorted)
qed

lemma descending_jsSort: "descending (jsSort bySimilarityDesc xs)"
proof (induction xs rule: rev_induct)
  case Nil
  then show ?case by (simp add: jsSort_Nil descending_def)
next
  case (snoc x xs)
  then show ?case by (simp add: jsSort_snoc descending_insertSorted)
qed




section \<open>\<open>semanticSearch\<close>\<close>

lemma sqrt_25: "sqrt 25 = 5"
  by (rule real_sqrt_unique) simp_all

lemma sqrt_169: "sqrt 169 = 13"
  by (rule real_sqrt_unique) simp_all

lemma getEmbedding_constantApi: "apiKey vs \<noteq> [] \<Longrightarrow> getEmbedding constantApi vs s = Inr [1, 0]"
  by (simp add: getEmbedding_def remoteEmbedding_def constantApi_def)


lemma scoreAll_exampleStore: "scoreAll [1, 0] (vectors exampleStore) =
   [\<lparr>vector = exampleVector meetingOne [4, 3], similarity = 4 / 5\<rparr>,
    \<lparr>vector = exampleVector meetingTwo [1, 0], similarity = 1\<rparr>,
    \<lparr>vector = exampleVector meetingOne [12, 5], similarity = 12 / 13\<rparr>]"
  by (simp add: scoreAll_def exampleStore_def cosineSimilarity_def exampleVector_def sqrt_25 sqrt_169)

lemma semanticSearch_exampleStore:
  "semanticSearch constantApi exampleStore [0x68, 0x69] 6 =
   [\<lparr>vector = exampleVector meetingTwo [1, 0], similarity = 1\<rparr>,
    \<lparr>vector = exampleVector meetingOne [12, 5], similarity = 12 / 13\<rparr>,
    \<lparr>vector = exampleVector meetingOne [4, 3], similarity = 4 / 5\<rparr>]"
proof -
  have "apiKey exampleStore \<noteq> []" by (simp add: exampleStore_def)
  then have "getEmbedding constantApi exampleStore [0x68, 0x69] = Inr [1, 0]"
    by (rule getEmbedding_constantApi)
  moreover have "vectors exampleStore \<noteq> []" by (simp add: exampleStore_def)
  ultimately show ?thesis
    using scoreAll_exampleStore
    by (simp add: semanticSearch_def scoreAll_def jsSort_def bySimilarityDesc_def slice0_def)
qed







section \<open>\<open>deduplicateResults\<close>\<close>

lemma map_of_mapSet: "map_of (mapSet k v m) = (map_of m)(k \<mapsto> v)"
  by (induction m) auto

lemma keys_mapSet: "fst ` set (mapSet k v m) = insert k (fst ` set m)"
  by (simp add: map_of_mapSet flip: dom_map_of_conv_image_fst)

lemma entries_mapSet: "set (mapSet k v m) \<subseteq> insert (k, v) (set m)"
  by (induction m) (auto split: if_splits)

lemma values_mapSet: "snd ` set (mapSet k v m) \<subseteq> insert v (snd ` set m)"
proof -
  have "snd ` set (mapSet k v m) \<subseteq> snd ` insert (k, v) (set m)"
    by (rule image_mono) (rule entries_mapSet)
  then show ?thesis by simp
qed

lemma distinct_mapSet: "distinct (map fst m) \<Longrightarrow> distinct (map fst (mapSet k v m))"
proof (induction m)
  case Nil
  then show ?case by simp
next
  case (Cons e m)
  obtain k' v' where e: "e = (k', v')" by (cases e)
  show ?case
  proof (cases "k' = k")
    case True
    with Cons.prems e show ?thesis by simp
  next
    case False
    have "k' \<notin> fst ` set (mapSet k v m)"
      using Cons.prems e False by (auto simp: keys_mapSet)
    with Cons e False show ?thesis by simp
  qed
qed

lemma dedupStep_cases:
  "dedupStep m r = m \<or> dedupStep m r = mapSet (segmentOf r) r m"
  by (auto simp: dedupStep_def segmentOf_def Let_def split: option.splits)

lemma keyedBySegment_dedupStep: "keyedBySegment m \<Longrightarrow> keyedBySegment (dedupStep m r)"
proof -
  assume inv: "keyedBySegment m"
  have "keyedBySegment (mapSet (segmentOf r) r m)"
    unfolding keyedBySegment_def
  proof
    show "distinct (map fst (mapSet (segmentOf r) r m))"
      using inv by (simp add: keyedBySegment_def distinct_mapSet)
    show "\<forall>(k, v) \<in> set (mapSet (segmentOf r) r m). segmentOf v = k"
      using inv entries_mapSet [of "segmentOf r" r m] by (auto simp: keyedBySegment_def)
  qed
  with inv show ?thesis using dedupStep_cases [of m r] by auto
qed

lemma values_dedupStep: "snd ` set (dedupStep m r) \<subseteq> insert r (snd ` set m)"
proof (cases "dedupStep m r = m")
  case True
  then show ?thesis by (simp add: subset_insertI)
next
  case False
  with dedupStep_cases [of m r] have "dedupStep m r = mapSet (segmentOf r) r m" by simp
  then show ?thesis by (simp add: values_mapSet)
qed

lemma keys_dedupStep: "fst ` set (dedupStep m r) = insert (segmentOf r) (fst ` set m)"
proof (cases "map_of m (segmentOf r)")
  case None
  then show ?thesis
    by (simp add: dedupStep_def Let_def keys_mapSet flip: segmentOf_def)
next
  case (Some v)
  then have "segmentOf r \<in> fst ` set m"
    by (metis domI dom_map_of_conv_image_fst)
  then show ?thesis
    using Some by (auto simp: dedupStep_def Let_def keys_mapSet simp flip: segmentOf_def)
qed

lemma dedupStep_keeps_better:
  "map_of m k = Some v \<Longrightarrow>
   \<exists>v'. map_of (dedupStep m r) k = Some v' \<and> similarity v \<le> similarity v'"
  by (auto simp: dedupStep_def Let_def map_of_mapSet split: option.splits)

lemma dedupStep_covers:
  "\<exists>v'. map_of (dedupStep m r) (segmentOf r) = Some v' \<and> similarity r \<le> similarity v'"
  by (auto simp: dedupStep_def Let_def map_of_mapSet segmentOf_def split: option.splits)

lemma keyedBySegment_foldl:
  "keyedBySegment m \<Longrightarrow> keyedBySegment (foldl dedupStep m rs)"
  by (induction rs arbitrary: m) (simp_all add: keyedBySegment_dedupStep)

lemma values_foldl: "snd ` set (foldl dedupStep m rs) \<subseteq> snd ` set m \<union> set rs"
proof (induction rs arbitrary: m)
  case Nil
  then show ?case by simp
next
  case (Cons r rs)
  from Cons.IH [of "dedupStep m r"] values_dedupStep [of m r]
  show ?case by auto
qed

lemma keys_foldl: "fst ` set (foldl dedupStep m rs) = fst ` set m \<union> segmentOf ` set rs"
proof (induction rs arbitrary: m)
  case Nil
  then show ?case by simp
next
  case (Cons r rs)
  from Cons.IH [of "dedupStep m r"] keys_dedupStep [of m r]
  show ?case by auto
qed

lemma foldl_keeps_better:
  "map_of m k = Some v \<Longrightarrow>
   \<exists>v'. map_of (foldl dedupStep m rs) k = Some v' \<and> similarity v \<le> similarity v'"
proof (induction rs arbitrary: m v)
  case Nil
  then show ?case by simp
next
  case (Cons r rs)
  from dedupStep_keeps_better [OF Cons.prems, of r]
  obtain v1 where v1: "map_of (dedupStep m r) k = Some v1" "similarity v \<le> similarity v1"
    by blast
  from Cons.IH [OF v1(1)] v1(2) show ?case by fastforce
qed

lemma foldl_covers:
  "r \<in> set rs \<Longrightarrow>
   \<exists>v'. map_of (foldl dedupStep m rs) (segmentOf r) = Some v' \<and> similarity r \<le> similarity v'"
proof (induction rs arbitrary: m)
  case Nil
  then show ?case by simp
next
  case (Cons x rs)
  show ?case
  proof (cases "r = x")
    case True
    from dedupStep_covers [of m r]
    obtain v1 where v1: "map_of (dedupStep m r) (segmentOf r) = Some v1"
      "similarity r \<le> similarity v1" by blast
    from foldl_keeps_better [OF v1(1), of rs] v1(2) True show ?thesis by fastforce
  next
    case False
    with Cons.prems have "r \<in> set rs" by simp
    from Cons.IH [OF this, of "dedupStep m x"] show ?thesis by simp
  qed
qed

lemma deduplicateResults_properties:
  "descending (deduplicateResults rs)
   \<and> distinct (map segmentOf (deduplicateResults rs))
   \<and> set (deduplicateResults rs) \<subseteq> set rs
   \<and> segmentOf ` set (deduplicateResults rs) = segmentOf ` set rs
   \<and> (\<forall>d \<in> set (deduplicateResults rs). \<forall>r \<in> set rs.
        segmentOf r = segmentOf d \<longrightarrow> similarity r \<le> similarity d)"
proof -
  define m where "m = foldl dedupStep [] rs"
  have inv: "keyedBySegment m"
    unfolding m_def by (rule keyedBySegment_foldl) (simp add: keyedBySegment_def)
  have key: "segmentOf v = k" if "(k, v) \<in> set m" for k v
    using inv that by (auto simp: keyedBySegment_def)
  have dist: "distinct (map fst m)"
    using inv by (simp add: keyedBySegment_def)
  have set_d: "set (deduplicateResults rs) = snd ` set m"
    by (simp add: deduplicateResults_def set_jsSort m_def)
  have seg_fst: "map segmentOf (map snd m) = map fst m"
    using key by (auto simp: map_eq_conv)
  have "mset (deduplicateResults rs) = mset (map snd m)"
    by (simp add: deduplicateResults_def mset_jsSort m_def)
  then have "mset (map segmentOf (deduplicateResults rs)) = mset (map segmentOf (map snd m))"
    by (metis mset_map)
  then have d2: "distinct (map segmentOf (deduplicateResults rs))"
    using dist seg_fst by (metis mset_eq_imp_distinct_iff)
  have d3: "set (deduplicateResults rs) \<subseteq> set rs"
    using values_foldl [of "[]" rs] by (simp add: set_d m_def)
  have "segmentOf ` snd ` set m = fst ` set m"
    using key by (force simp: image_iff)
  then have d4: "segmentOf ` set (deduplicateResults rs) = segmentOf ` set rs"
    using keys_foldl [of "[]" rs] by (simp add: set_d m_def)
  have d5: "similarity r \<le> similarity d"
    if "d \<in> set (deduplicateResults rs)" "r \<in> set rs" "segmentOf r = segmentOf d" for d r
  proof -
    from that(1) obtain k where "(k, d) \<in> set m" by (auto simp: set_d)
    with key have "(segmentOf d, d) \<in> set m" by auto
    with dist have "map_of m (segmentOf d) = Some d" by simp
    moreover from foldl_covers [OF that(2), of "[]"]
    obtain v' where "map_of m (segmentOf r) = Some v'" "similarity r \<le> similarity v'"
      by (auto simp: m_def)
    ultimately show ?thesis using that(3) by simp
  qed
  have d1: "descending (deduplicateResults rs)"
    by (simp add: deduplicateResults_def descending_jsSort)
  from d1 d2 d3 d4 d5 show ?thesis by blast
qed

section \<open>\<open>retrieveContext\<close>\<close>

lemma boostCurrentMeeting_boostFor:
  "boostCurrentMeeting results m = jsSort bySimilarityDesc (map (boostFor m) results)"
proof -
  have "(\<lambda>result. result\<lparr>similarity :=
            (if meetingId (metadata (vector result)) = m then similarity result * 1.2
             else similarity result)\<rparr>) = boostFor m"
    by (rule ext) (simp add: boostFor_def)
  then show ?thesis by (simp add: boostCurrentMeeting_def)
qed

text \<open>
  C4. \<open>retrieveContext\<close> keeps the search results whose similarity is at least the
  threshold; when a current meeting is given (a non-empty string, as the test
  \<open>if (currentMeetingId)\<close> reads it) the similarity of each of its results is multiplied
  by 1.2 and the list is sorted again, a permutation of the boosted results with none
  dropped; the result has one entry per segment id, each an entry of the boosted list
  of highest similarity among those of its segment; and the result is in non-increasing
  order of similarity.
\<close>

theorem retrieveContext_policy:
  "let found = semanticSearch api vs question (retrievalLimit (config rs));
       kept = filter (\<lambda>r. similarityThreshold (config rs) \<le> similarity r) found;
       boosted = (case cmid of
                    None \<Rightarrow> kept
                  | Some m \<Rightarrow> if m = [] then kept else map (boostFor m) kept);
       result = retrieveContext api vs rs question cmid
   in descending result
      \<and> distinct (map segmentOf result)
      \<and> set result \<subseteq> set boosted
      \<and> segmentOf ` set result = segmentOf ` set boosted
      \<and> (\<forall>d \<in> set result. \<forall>b \<in> set boosted.
           segmentOf b = segmentOf d \<longrightarrow> similarity b \<le> similarity d)
      \<and> (\<forall>m. cmid = Some m \<and> m \<noteq> [] \<longrightarrow>
           descending (boostCurrentMeeting kept m)
           \<and> mset (boostCurrentMeeting kept m) = mset (map (boostFor m) kept))"
proof -
  define kept where
    "kept = filter (\<lambda>r. similarityThreshold (config rs) \<le> similarity r)
              (semanticSearch api vs question (retrievalLimit (config rs)))"
  define boosted where
    "boosted = (case cmid of
                  None \<Rightarrow> kept
                | Some m \<Rightarrow> if m = [] then kept else map (boostFor m) kept)"
  define ranked where
    "ranked = (case cmid of
                 None \<Rightarrow> kept
               | Some m \<Rightarrow> if m \<noteq> [] then boostCurrentMeeting kept m else kept)"
  have result: "retrieveContext api vs rs question cmid = deduplicateResults ranked"
    by (simp add: retrieveContext_def ranked_def kept_def Let_def split: option.splits)
  have same: "set ranked = set boosted"
    by (simp add: ranked_def boosted_def boostCurrentMeeting_boostFor set_jsSort
        split: option.splits)
  have resort: "descending (boostCurrentMeeting kept m)
      \<and> mset (boostCurrentMeeting kept m) = mset (map (boostFor m) kept)" for m
    by (simp add: boostCurrentMeeting_boostFor descending_jsSort mset_jsSort)
  from deduplicateResults_properties [of ranked] same resort
  show ?thesis
    unfolding Let_def result kept_def [symmetric] boosted_def [symmetric]
    by simp
qed

lemma retrieveContext_exampleStore:
  "retrieveContext constantApi exampleStore defaultService [0x68, 0x69] (Some meetingOne) =
   [\<lparr>vector = exampleVector meetingOne [12, 5], similarity = 72 / 65\<rparr>,
    \<lparr>vector = exampleVector meetingTwo [1, 0], similarity = 1\<rparr>]"
  by (simp add: retrieveContext_def semanticSearch_exampleStore defaultService_def
      defaultConfig_def boostCurrentMeeting_def deduplicateResults_def dedupStep_def jsSort_def
      bySimilarityDesc_def exampleVector_def meetingOne_def meetingTwo_def Let_def)

theorem retrieveContext_policy_witness:
  "map (\<lambda>r. (segmentOf r, similarity r))
     (retrieveContext constantApi exampleStore defaultService [0x68, 0x69] (Some meetingOne)) =
     [(meetingOne @ [0x5F, 0x30], 72 / 65), (meetingTwo @ [0x5F, 0x30], 1)]
   \<and> descending
       (retrieveContext constantApi exampleStore defaultService [0x68, 0x69] (Some meetingOne))
   \<and> distinct (map segmentOf
       (retrieveContext constantApi exampleStore defaultService [0x68, 0x69] (Some meetingOne)))"
  using retrieveContext_policy
    [of constantApi exampleStore "[0x68, 0x69]" defaultService "Some meetingOne"]
    retrieveContext_exampleStore
  by (simp add: Let_def segmentOf_def exampleVector_def)

section \<open>The fallback embedding\<close>

lemma foldl_squares: "foldl (\<lambda>sum val. sum + val * val) acc e = acc + (\<Sum>x\<leftarrow>e. x * (x :: real))"
  by (induction e arbitrary: acc) simp_all

lemma sum_list_bump:
  "i < length e \<Longrightarrow> sum_list (e[i := e ! i + d]) = sum_list e + (d :: real)"
proof (induction e arbitrary: i)
  case Nil
  then show ?case by simp
next
  case (Cons x e)
  then show ?case by (cases i) simp_all
qed

lemma nonneg_bump:
  assumes "\<forall>x \<in> set e. 0 \<le> x" and "0 \<le> (d :: real)" and "i < length e"
  shows "\<forall>x \<in> set (e[i := e ! i + d]). 0 \<le> x"
proof
  fix x assume "x \<in> set (e[i := e ! i + d])"
  then have "x = e ! i + d \<or> x \<in> set e"
    using set_update_subset_insert [of e i "e ! i + d"] by auto
  with assms show "0 \<le> x" by (auto simp: add_nonneg_nonneg)
qed

text \<open>One pass of the inner loop over a list of offsets.\<close>

lemma scatter_offsets:
  assumes "length e = 384" and "\<forall>x \<in> set e. 0 \<le> x" and "0 \<le> (d :: real)"
  shows "length (foldl (\<lambda>e i. (let index = nat ((h + int i) mod 384) in e[index := e ! index + d])) e is) = 384
    \<and> (\<forall>x \<in> set (foldl (\<lambda>e i. (let index = nat ((h + int i) mod 384) in e[index := e ! index + d])) e is). 0 \<le> x)
    \<and> sum_list (foldl (\<lambda>e i. (let index = nat ((h + int i) mod 384) in e[index := e ! index + d])) e is)
        = sum_list e + real (length is) * d"
  using assms
proof (induction "is" arbitrary: e)
  case Nil
  then show ?case by simp
next
  case (Cons i "is")
  let ?k = "nat ((h + int i) mod 384)"
  have k: "?k < length e" using Cons.prems(1) by simp
  let ?e = "e[?k := e ! ?k + d]"
  have 1: "length ?e = 384" using Cons.prems(1) by simp
  have 2: "\<forall>x \<in> set ?e. 0 \<le> x" using nonneg_bump [OF Cons.prems(2,3) k] .
  have 3: "sum_list ?e = sum_list e + d" using sum_list_bump [OF k] .
  from Cons.IH [OF 1 2 Cons.prems(3)] 3 show ?case
    by (simp add: Let_def algebra_simps)
qed

lemma scatterWord_properties:
  assumes "length e = 384" and "\<forall>x \<in> set e. 0 \<le> x"
  shows "length (scatterWord e (w, n)) = 384
    \<and> (\<forall>x \<in> set (scatterWord e (w, n)). 0 \<le> x)
    \<and> sum_list (scatterWord e (w, n)) = sum_list e + real n / 2"
  using scatter_offsets [OF assms, of "real n * 0.1" "simpleHash w" "[0..<5]"]
  by (simp add: scatterWord_def Let_def)

lemma scatter_entries:
  assumes "length e = 384" and "\<forall>x \<in> set e. 0 \<le> x"
  shows "length (foldl scatterWord e entries) = 384
    \<and> (\<forall>x \<in> set (foldl scatterWord e entries). 0 \<le> x)
    \<and> sum_list (foldl scatterWord e entries) = sum_list e + real (sum_list (map snd entries)) / 2"
  using assms
proof (induction entries arbitrary: e)
  case Nil
  then show ?case by simp
next
  case (Cons entry entries)
  obtain w n where entry: "entry = (w, n)" by (cases entry)
  from scatterWord_properties [OF Cons.prems, of w n]
  have 1: "length (scatterWord e (w, n)) = 384"
    and 2: "\<forall>x \<in> set (scatterWord e (w, n)). 0 \<le> x"
    and 3: "sum_list (scatterWord e (w, n)) = sum_list e + real n / 2" by auto
  from Cons.IH [OF 1 2] 3 entry show ?case
    by (simp add: add_divide_distrib)
qed

lemma countWord_total: "sum_list (map snd (countWord m w)) = sum_list (map snd m) + 1"
  by (induction m w rule: countWord.induct) simp_all

lemma countWords_total:
  "sum_list (map snd (foldl countWord m ws)) = sum_list (map snd m) + length ws"
  by (induction ws arbitrary: m) (simp_all add: countWord_total)

lemma fallbackCounts_properties:
  "length (fallbackCounts s) = 384
   \<and> (\<forall>x \<in> set (fallbackCounts s). 0 \<le> x)
   \<and> sum_list (fallbackCounts s) = real (length (fallbackWords s)) / 2"
  using scatter_entries [of "replicate 384 0" "foldl countWord [] (fallbackWords s)"]
    countWords_total [of "[]" "fallbackWords s"]
  by (simp add: fallbackCounts_def sum_list_replicate)

lemma fallbackCounts_no_words: "fallbackWords s = [] \<Longrightarrow> fallbackCounts s = replicate 384 0"
  by (simp add: fallbackCounts_def)

lemma vecNorm_nonneg: "0 \<le> vecNorm v"
  by (simp add: vecNorm_def sum_squares_nonneg)

lemma sum_list_zeros: "\<forall>x \<in> set e. x = 0 \<Longrightarrow> sum_list e = (0 :: real)"
  by (induction e) simp_all

lemma vecNorm_fallbackCounts: "vecNorm (fallbackCounts s) = 0 \<longleftrightarrow> fallbackWords s = []"
proof
  assume "fallbackWords s = []"
  then show "vecNorm (fallbackCounts s) = 0"
    by (simp add: fallbackCounts_no_words vecNorm_zero_iff)
next
  assume "vecNorm (fallbackCounts s) = 0"
  then have "\<forall>x \<in> set (fallbackCounts s). x = 0" by (simp add: vecNorm_zero_iff)
  then have "sum_list (fallbackCounts s) = 0" by (rule sum_list_zeros)
  with fallbackCounts_properties [of s] show "fallbackWords s = []" by simp
qed

lemma sum_squares_scaled:
  "(\<Sum>x\<leftarrow>map (\<lambda>val. val / n) e. x * x) = (\<Sum>x\<leftarrow>e. x * x) / (n * (n :: real))"
  by (induction e) (simp_all add: add_divide_distrib)

lemma vecNorm_scaled:
  assumes "vecNorm e \<noteq> 0"
  shows "vecNorm (map (\<lambda>val. val / vecNorm e) e) = 1"
proof -
  let ?n = "vecNorm e"
  have sq: "?n * ?n = (\<Sum>x\<leftarrow>e. x * x)"
    using sum_squares_nonneg [of e] by (simp add: vecNorm_def)
  have "(\<Sum>x\<leftarrow>map (\<lambda>val. val / ?n) e. x * x) = (\<Sum>x\<leftarrow>e. x * x) / (?n * ?n)"
    by (rule sum_squares_scaled)
  also have "\<dots> = 1"
  proof -
    have "?n * ?n \<noteq> 0" using assms by simp
    then show ?thesis by (simp flip: sq)
  qed
  finally show ?thesis by (simp add: vecNorm_def)
qed

lemma getFallbackEmbedding_eq:
  "getFallbackEmbedding s =
     (if vecNorm (fallbackCounts s) > 0
      then map (\<lambda>val. val / vecNorm (fallbackCounts s)) (fallbackCounts s)
      else fallbackCounts s)"
  by (simp add: getFallbackEmbedding_def Let_def foldl_squares vecNorm_def)

text \<open>
  C8. For every text (the non-empty ones included) the fallback embedding has exactly
  384 entries; equal texts give equal vectors; and the vector has Euclidean norm 1
  unless the array of hashed frequencies has norm 0, which happens exactly when the
  text has no word, and then the vector is all zero.
\<close>

theorem getFallbackEmbedding_properties:
  "length (getFallbackEmbedding s) = 384
   \<and> (s = s' \<longrightarrow> getFallbackEmbedding s = getFallbackEmbedding s')
   \<and> (vecNorm (fallbackCounts s) = 0 \<longleftrightarrow> fallbackWords s = [])
   \<and> (vecNorm (fallbackCounts s) \<noteq> 0 \<longrightarrow> vecNorm (getFallbackEmbedding s) = 1)
   \<and> (vecNorm (fallbackCounts s) = 0 \<longrightarrow> getFallbackEmbedding s = replicate 384 0)"
proof -
  have len: "length (getFallbackEmbedding s) = 384"
    using fallbackCounts_properties [of s] by (simp add: getFallbackEmbedding_eq)
  have unit: "vecNorm (getFallbackEmbedding s) = 1" if "vecNorm (fallbackCounts s) \<noteq> 0"
    using that vecNorm_nonneg [of "fallbackCounts s"]
    by (simp add: getFallbackEmbedding_eq vecNorm_scaled)
  have zero: "getFallbackEmbedding s = replicate 384 0" if "vecNorm (fallbackCounts s) = 0"
    using that by (simp add: getFallbackEmbedding_eq vecNorm_fallbackCounts fallbackCounts_no_words)
  from len unit zero vecNorm_fallbackCounts [of s] show ?thesis by blast
qed

lemma fallbackWords_example: "fallbackWords [0x48, 0x69, 0x21] = [[0x68, 0x69]]"
  by (simp add: fallbackWords_def toLowerCase_def isTokenChar_def isWordChar_def isCJK_def)

lemma fallbackWords_no_words: "fallbackWords [0x21, 0x3F] = []"
  by (simp add: fallbackWords_def toLowerCase_def isTokenChar_def isWordChar_def isCJK_def)

theorem getFallbackEmbedding_properties_witness:
  "fallbackWords [0x48, 0x69, 0x21] = [[0x68, 0x69]]
   \<and> vecNorm (fallbackCounts [0x48, 0x69, 0x21]) \<noteq> 0
   \<and> length (getFallbackEmbedding [0x48, 0x69, 0x21]) = 384
   \<and> vecNorm (getFallbackEmbedding [0x48, 0x69, 0x21]) = 1
   \<and> vecNorm (fallbackCounts [0x21, 0x3F]) = 0
   \<and> getFallbackEmbedding [0x21, 0x3F] = replicate 384 0"
  using getFallbackEmbedding_properties [of "[0x48, 0x69, 0x21]" "[0x48, 0x69, 0x21]"]
    getFallbackEmbedding_properties [of "[0x21, 0x3F]" "[0x21, 0x3F]"]
    fallbackWords_example fallbackWords_no_words
  by simp

section \<open>\<open>chunkText\<close>\<close>

lemma trim_Nil: "trim [] = []"
  by (simp add: trim_def)

lemma length_trim: "length (trim s) \<le> length s"
proof -
  have "length (dropWhile isWhiteSpace (rev (dropWhile isWhiteSpace s)))
      \<le> length (rev (dropWhile isWhiteSpace s))"
    by (rule length_dropWhile_le)
  also have "\<dots> \<le> length s" by (simp add: length_dropWhile_le)
  finally show ?thesis by (simp add: trim_def)
qed

text \<open>
  When no piece of the split has a non-blank content, no chunk is produced and the
  original text is the sole chunk.
\<close>

lemma chunkText_no_sentence:
  "filter (\<lambda>s. trim s \<noteq> []) (splitOn isSentenceEnd t) = [] \<Longrightarrow> chunkText t maxLength = [t]"
  by (simp add: chunkText_def trim_Nil)

text \<open>
  What the loop keeps: a chunk is one sentence, or was joined while the check
  \<open>(currentChunk + sentence).length > maxLength\<close> was false. The check does not count the
  separator that the join adds, so a joined chunk may have \<open>maxLength + 1\<close> code units.
\<close>

lemma chunkLoop_bound:
  assumes "\<forall>c \<in> set chunks. (\<exists>s \<in> S. c = trim s) \<or> real (length c) \<le> maxLength + 1"
    and "cur = [] \<or> cur \<in> S \<or> real (length cur) \<le> maxLength + 1"
    and "set sentences \<subseteq> S"
    and "chunkLoop maxLength sentences (chunks, cur) = (chunks', cur')"
  shows "(\<forall>c \<in> set chunks'. (\<exists>s \<in> S. c = trim s) \<or> real (length c) \<le> maxLength + 1)
    \<and> (cur' = [] \<or> cur' \<in> S \<or> real (length cur') \<le> maxLength + 1)"
  using assms
proof (induction sentences arbitrary: chunks cur)
  case Nil
  then show ?case by simp
next
  case (Cons sentence sentences)
  have s: "sentence \<in> S" and rest: "set sentences \<subseteq> S" using Cons.prems(3) by auto
  show ?case
  proof (cases "real (length (cur @ sentence)) > maxLength \<and> cur \<noteq> []")
    case True
    then have loop: "chunkLoop maxLength sentences (chunks @ [trim cur], sentence) = (chunks', cur')"
      using Cons.prems(4) by simp
    have "(\<exists>s \<in> S. trim cur = trim s) \<or> real (length (trim cur)) \<le> maxLength + 1"
    proof -
      from Cons.prems(2) True consider "cur \<in> S" | "real (length cur) \<le> maxLength + 1" by auto
      then show ?thesis
      proof cases
        case 1
        then show ?thesis by blast
      next
        case 2
        with length_trim [of cur] show ?thesis by simp
      qed
    qed
    with Cons.prems(1)
    have "\<forall>c \<in> set (chunks @ [trim cur]). (\<exists>s \<in> S. c = trim s) \<or> real (length c) \<le> maxLength + 1"
      by auto
    from Cons.IH [OF this _ rest loop] s show ?thesis by blast
  next
    case False
    let ?next = "cur @ (if cur \<noteq> [] then [0x3002] else []) @ sentence"
    have "chunkLoop maxLength (sentence # sentences) (chunks, cur) =
        chunkLoop maxLength sentences (chunks, ?next)"
      using False by (simp only: chunkLoop.simps if_not_P if_False)
    with Cons.prems(4)
    have loop: "chunkLoop maxLength sentences (chunks, ?next) = (chunks', cur')" by simp
    have "?next = [] \<or> ?next \<in> S \<or> real (length ?next) \<le> maxLength + 1"
    proof (cases "cur = []")
      case True
      with s show ?thesis by simp
    next
      case nonempty: False
      with False have "real (length (cur @ sentence)) \<le> maxLength" by simp
      with nonempty show ?thesis by simp
    qed
    from Cons.IH [OF Cons.prems(1) this rest loop] show ?thesis .
  qed
qed

lemma chunkText_bound:
  assumes "c \<in> set (chunkText t maxLength)"
  shows "c = t \<or> (\<exists>s \<in> set (splitOn isSentenceEnd t). c = trim s)
    \<or> real (length c) \<le> maxLength + 1"
proof -
  let ?S = "set (splitOn isSentenceEnd t)"
  let ?sentences = "filter (\<lambda>s. trim s \<noteq> []) (splitOn isSentenceEnd t)"
  obtain chunks cur where loop: "chunkLoop maxLength ?sentences ([], []) = (chunks, cur)"
    by (cases "chunkLoop maxLength ?sentences ([], [])")
  have inv: "(\<forall>c \<in> set chunks. (\<exists>s \<in> ?S. c = trim s) \<or> real (length c) \<le> maxLength + 1)
    \<and> (cur = [] \<or> cur \<in> ?S \<or> real (length cur) \<le> maxLength + 1)"
    by (rule chunkLoop_bound [OF _ _ _ loop]) auto
  let ?all = "if trim cur \<noteq> [] then chunks @ [trim cur] else chunks"
  have last: "(\<exists>s \<in> ?S. trim cur = trim s) \<or> real (length (trim cur)) \<le> maxLength + 1"
    if "trim cur \<noteq> []"
  proof -
    from that have "cur \<noteq> []" by (auto simp: trim_Nil)
    with inv consider "cur \<in> ?S" | "real (length cur) \<le> maxLength + 1" by auto
    then show ?thesis
    proof cases
      case 1
      then show ?thesis by blast
    next
      case 2
      with length_trim [of cur] show ?thesis by simp
    qed
  qed
  have all: "\<forall>c \<in> set ?all. (\<exists>s \<in> ?S. c = trim s) \<or> real (length c) \<le> maxLength + 1"
    using inv last by auto
  have "chunkText t maxLength = (if length ?all > 0 then ?all else [t])"
    using loop by (simp add: chunkText_def Let_def)
  with assms all show ?thesis by (auto split: if_splits)
qed

lemma chunkText_small_example:
  "chunkText [0x61, 0x62, 0x2E, 0x63] 3 = [[0x61, 0x62, 0x3002, 0x63]]"
  by (simp add: chunkText_def trim_def isSentenceEnd_def isWhiteSpace_def)

lemma chunkText_default_sentences:
  "filter (\<lambda>s. trim s \<noteq> [])
     (splitOn isSentenceEnd (replicate 300 0x61 @ [0x2E] @ replicate 200 0x62)) =
   [replicate 300 0x61, replicate 200 0x62]"
  by code_simp

lemma chunkText_default_chunks:
  "chunkText (replicate 300 0x61 @ [0x2E] @ replicate 200 0x62) 500 =
   [replicate 300 0x61 @ [0x3002] @ replicate 200 0x62]"
  by code_simp

text \<open>
  C5. The claim bounds every chunk by \<open>maxLength\<close> unless a single sentence exceeds it.
  The code misses the bound by the separator: for the default \<open>maxLength = 500\<close>, the
  text of 300 letters \<open>a\<close>, a full stop and 200 letters \<open>b\<close> has the two sentences of 300
  and 200 code units, neither longer than 500, and \<open>chunkText\<close> returns the single chunk
  that joins them with U+3002, of 501 code units. (The second half of the claim holds:
  \<open>chunkText_no_sentence\<close>.)
\<close>

theorem chunkText_exceeds_maxLength:
  "filter (\<lambda>s. trim s \<noteq> [])
     (splitOn isSentenceEnd (replicate 300 0x61 @ [0x2E] @ replicate 200 0x62)) =
     [replicate 300 0x61, replicate 200 0x62]
   \<and> chunkText (replicate 300 0x61 @ [0x2E] @ replicate 200 0x62) 500 =
     [replicate 300 0x61 @ [0x3002] @ replicate 200 0x62]
   \<and> length (replicate 300 (0x61 :: jschar) @ [0x3002] @ replicate 200 0x62) = 501"
  using chunkText_default_sentences chunkText_default_chunks by simp

section \<open>A worked query\<close>

text \<open>
  The question \<open>hi\<close> about the example store, with meeting \<open>m1\<close> in focus and no key for
  the generation endpoint: the two chunks of segment \<open>m1_0\<close> collapse to the better one,
  boosted to 72/65; the context has the two lines \<open>[1:36] A: hi\<close>; the answer is the
  extractive one, which holds no hedging phrase; and the confidence is
  \<open>(72/65 + 1)/2 * 2/3 = 137/195\<close>.
\<close>

lemma prepareContext_example:
  "fst (prepareContext defaultService
     [\<lparr>vector = exampleVector meetingOne [12, 5], similarity = 72 / 65\<rparr>,
      \<lparr>vector = exampleVector meetingTwo [1, 0], similarity = 1\<rparr>]) =
   [0x5B, 0x31, 0x3A, 0x33, 0x36, 0x5D, 0x20, 0x41, 0x3A, 0x20, 0x68, 0x69, 0xA, 0xA,
    0x5B, 0x31, 0x3A, 0x33, 0x36, 0x5D, 0x20, 0x41, 0x3A, 0x20, 0x68, 0x69]"
  by (simp add: prepareContext_def defaultService_def defaultConfig_def segmentLine_def Let_def
      exampleVector_def formatTime_def jsRem_def showInt_def padStart2_def)

lemma fallbackAnswer_example_certain:
  "\<not> containsUncertainty (generateFallbackAnswer [0x68, 0x69]
      [0x5B, 0x31, 0x3A, 0x33, 0x36, 0x5D, 0x20, 0x41, 0x3A, 0x20, 0x68, 0x69, 0xA, 0xA,
       0x5B, 0x31, 0x3A, 0x33, 0x36, 0x5D, 0x20, 0x41, 0x3A, 0x20, 0x68, 0x69])"
  by code_simp

lemma query_example:
  "query constantApi unreachableLlm exampleStore defaultService [0x68, 0x69] (Some meetingOne) =
   \<lparr>answer = generateFallbackAnswer [0x68, 0x69]
       [0x5B, 0x31, 0x3A, 0x33, 0x36, 0x5D, 0x20, 0x41, 0x3A, 0x20, 0x68, 0x69, 0xA, 0xA,
        0x5B, 0x31, 0x3A, 0x33, 0x36, 0x5D, 0x20, 0x41, 0x3A, 0x20, 0x68, 0x69],
     sources = map toSource
       [\<lparr>vector = exampleVector meetingOne [12, 5], similarity = 72 / 65\<rparr>,
        \<lparr>vector = exampleVector meetingTwo [1, 0], similarity = 1\<rparr>],
     usedContext =
       [0x5B, 0x31, 0x3A, 0x33, 0x36, 0x5D, 0x20, 0x41, 0x3A, 0x20, 0x68, 0x69, 0xA, 0xA,
        0x5B, 0x31, 0x3A, 0x33, 0x36, 0x5D, 0x20, 0x41, 0x3A, 0x20, 0x68, 0x69],
     confidence = 137 / 195\<rparr>"
proof -
  have gen: "generateAnswer unreachableLlm defaultService q c m = generateFallbackAnswer q c"
    for q c m
    by (simp add: generateAnswer_def defaultService_def)
  show ?thesis
    using fallbackAnswer_example_certain
    by (simp add: query_def retrieveContext_exampleStore prepareContext_example gen
        calculateConfidence_def Let_def)
qed

end
